theory Spec2Isabelle
  imports Complex_Main "HOL-Library.Multiset"
begin

section \<open>Payout cycle state machine (src/utils/payoutControls.ts)\<close>

text \<open>
  The source file holds two versions of the module; the model follows the later one (lines
  144 to 329), with the stored \<open>resumeAt\<close> and the \<open>freezePaused\<close> option.

  Time stamps and durations are JavaScript numbers holding whole epoch milliseconds
  (\<^verbatim>\<open>Date.now()\<close>, sums and differences of them), far below \<open>2 ^ 53\<close>, where the
  arithmetic of doubles on integers is exact; they are modelled as \<open>int\<close>, and
  \<^verbatim>\<open>Math.floor(a / b)\<close> for a positive \<open>b\<close> as \<open>a div b\<close>.
  Every control record reaches \<open>derivePayoutState\<close> through \<open>sanitizeControlState\<close>
  (or through JSON, which cannot carry NaN or Infinity), so a field that is present is a
  finite number: an optional numeric field is an \<open>int option\<close>, \<^verbatim>\<open>Number.isFinite(x)\<close>
  and \<^verbatim>\<open>typeof x === 'number'\<close> both read "the field is present", and \<^verbatim>\<open>x ?? y\<close> is
  a case distinction on the option. The progress fraction is the exact quotient, a \<open>rat\<close>.
\<close>

definition DAY_MS :: int where
  "DAY_MS = 24 * 60 * 60 * 1000"

record PayoutControlState =
  paused :: "bool option"
  pauseRemainingMs :: "int option"
  resumeAt :: "int option"
  adjustedNextPayoutAt :: "int option"
  adjustedLastApprovedAt :: "int option"
  cycleStartAt :: "int option"
  cycleMs :: "int option"

datatype payout_status = Paused | Ready | Running

text \<open>The fields of \<^verbatim>\<open>DerivedPayoutState\<close>, prefixed \<open>d_\<close> to keep them apart from the
  control's fields of the same name.\<close>

record DerivedPayoutState =
  d_lastApprovedAt :: int
  d_nextPayoutAt :: int
  d_remaining :: int
  d_resumeAt :: int
  d_status :: payout_status
  d_progress :: rat
  d_isCycle :: bool
  d_cycleMs :: "int option"

text \<open>\<^verbatim>\<open>a ?? b\<close> on an optional number.\<close>

definition orElse :: "'a option \<Rightarrow> 'a \<Rightarrow> 'a" where
  "orElse x d = (case x of Some v \<Rightarrow> v | None \<Rightarrow> d)"

text \<open>\<^verbatim>\<open>c.cycleMs && c.cycleMs > 0 ? c.cycleMs : fallback\<close>\<close>

definition positiveOr :: "int option \<Rightarrow> int \<Rightarrow> int" where
  "positiveOr x d = (case x of Some v \<Rightarrow> (if v \<noteq> 0 \<and> v > 0 then v else d) | None \<Rightarrow> d)"

definition sanitizeControlState :: "PayoutControlState option \<Rightarrow> PayoutControlState option" where
  "sanitizeControlState control =
     (case control of
        None \<Rightarrow> None
      | Some c \<Rightarrow>
          (let hasPause = (paused c = Some True);
               r_paused = (if hasPause then Some True else None);
               r_pauseRemainingMs =
                 (if hasPause then map_option (\<lambda>v. max 0 v) (pauseRemainingMs c) else None);
               r_resumeAt = (if hasPause then map_option (\<lambda>v. max 0 v) (resumeAt c) else None);
               r_adjustedLastApprovedAt = adjustedLastApprovedAt c;
               r_adjustedNextPayoutAt = adjustedNextPayoutAt c;
               r_cycleStartAt = cycleStartAt c;
               r_cycleMs = (case cycleMs c of
                              Some m \<Rightarrow> (if m > 0 then Some m else None)
                            | None \<Rightarrow> None);
               hasManualAdjust =
                 (r_adjustedLastApprovedAt \<noteq> None \<or> r_adjustedNextPayoutAt \<noteq> None);
               hasCycle = (r_cycleStartAt \<noteq> None)
           in if \<not> hasPause \<and> \<not> hasManualAdjust \<and> \<not> hasCycle then None
              else Some \<lparr> paused = r_paused,
                          pauseRemainingMs = r_pauseRemainingMs,
                          resumeAt = r_resumeAt,
                          adjustedNextPayoutAt = r_adjustedNextPayoutAt,
                          adjustedLastApprovedAt = r_adjustedLastApprovedAt,
                          cycleStartAt = r_cycleStartAt,
                          cycleMs = (if hasCycle then r_cycleMs else None) \<rparr>))"

text \<open>The resume target of a paused control (the \<^verbatim>\<open>targetResumeAt\<close> of the paused branch):
  a stored \<open>resumeAt\<close> first, then the stored remaining time added to \<open>nowTs\<close>, then the
  next cycle boundary, then the adjusted or base next payout floored at \<open>nowTs\<close>.\<close>

definition pausedTarget :: "int \<Rightarrow> int \<Rightarrow> PayoutControlState \<Rightarrow> int \<Rightarrow> int \<Rightarrow> int" where
  "pausedTarget baseLastApprovedAt baseNextPayoutAt control nowTs cycleMs0 =
     (let hasCycle = (cycleStartAt control \<noteq> None);
          storedResumeAt = map_option (\<lambda>v. max v 0) (resumeAt control);
          storedRemaining = map_option (\<lambda>v. max v 0) (pauseRemainingMs control)
      in case storedResumeAt of
           Some t \<Rightarrow> t
         | None \<Rightarrow>
             (if hasCycle then
                (let safeCycleMs = (if cycleMs0 > 0 then cycleMs0 else DAY_MS);
                     cycleStartRaw = orElse (cycleStartAt control) (baseNextPayoutAt - safeCycleMs);
                     normalizedStart = max baseLastApprovedAt cycleStartRaw
                 in case storedRemaining of
                      Some r \<Rightarrow> nowTs + r
                    | None \<Rightarrow>
                        (let elapsed = max (nowTs - normalizedStart) 0;
                             cyclesElapsed = elapsed div safeCycleMs;
                             nextCycleStart = normalizedStart + cyclesElapsed * safeCycleMs;
                             candidate = nextCycleStart + safeCycleMs
                         in if candidate > nowTs then candidate else nowTs + safeCycleMs))
              else
                (let adjustedNext = orElse (adjustedNextPayoutAt control) baseNextPayoutAt;
                     minTarget = orElse (adjustedLastApprovedAt control) baseLastApprovedAt + 1000
                 in case storedRemaining of
                      Some r \<Rightarrow> nowTs + r
                    | None \<Rightarrow> max (max adjustedNext minTarget) nowTs)))"

text \<open>The window of a running recurring cycle (the non-paused \<^verbatim>\<open>hasCycle\<close> branch):
  the derived (lastApprovedAt, nextPayoutAt).\<close>

definition cycleWindow :: "int \<Rightarrow> int \<Rightarrow> int \<Rightarrow> int \<Rightarrow> int \<times> int" where
  "cycleWindow baseLastApprovedAt start safeCycleMs nowTs =
     (if nowTs < start then
        (max baseLastApprovedAt (start - safeCycleMs), start)
      else
        (let elapsed = nowTs - start;
             cyclesElapsed = elapsed div safeCycleMs;
             lastApprovedAt = max baseLastApprovedAt (start + cyclesElapsed * safeCycleMs);
             nextPayoutAt = lastApprovedAt + safeCycleMs
         in if nextPayoutAt \<le> nowTs then
              (let nextCycle = cyclesElapsed + 1;
                   lastApprovedAt' = max baseLastApprovedAt (start + nextCycle * safeCycleMs)
               in (lastApprovedAt', lastApprovedAt' + safeCycleMs))
            else (lastApprovedAt, nextPayoutAt)))"

text \<open>The closing lines of \<open>derivePayoutState\<close>: the progress fraction.\<close>

definition progressOf :: "int \<Rightarrow> int \<Rightarrow> int \<Rightarrow> int \<Rightarrow> rat" where
  "progressOf lastApprovedAt nextPayoutAt remaining cycleOrDefault =
     (let baseDuration = nextPayoutAt - lastApprovedAt;
          totalDuration = max (max baseDuration cycleOrDefault) 1;
          elapsed = max (totalDuration - remaining) 0
      in if totalDuration > 0
         then min 1 (max 0 (rat_of_int elapsed / rat_of_int totalDuration))
         else 1)"

definition derivePayoutState ::
  "int \<Rightarrow> int \<Rightarrow> PayoutControlState option \<Rightarrow> int \<Rightarrow> bool \<Rightarrow> DerivedPayoutState" where
  "derivePayoutState baseLastApprovedAt baseNextPayoutAt control nowTs freezePaused =
     (let remaining0 = max (baseNextPayoutAt - nowTs) 0;
          status0 = (if remaining0 \<le> 0 then Ready else Running);
          resumeAt0 = (if status0 = Ready then nowTs else baseNextPayoutAt);
          cycleMs0 = (case control of Some c \<Rightarrow> positiveOr (cycleMs c) DAY_MS | None \<Rightarrow> DAY_MS);
          defaultDuration = cycleMs0
      in case control of
           None \<Rightarrow>
             \<lparr> d_lastApprovedAt = baseLastApprovedAt, d_nextPayoutAt = baseNextPayoutAt,
               d_remaining = remaining0, d_resumeAt = resumeAt0, d_status = status0,
               d_progress = progressOf baseLastApprovedAt baseNextPayoutAt remaining0 defaultDuration,
               d_isCycle = False, d_cycleMs = None \<rparr>
         | Some c \<Rightarrow>
             (let hasCycle = (cycleStartAt c \<noteq> None) in
              if paused c = Some True then
                (let storedRemaining = map_option (\<lambda>v. max v 0) (pauseRemainingMs c);
                     targetResumeAt = pausedTarget baseLastApprovedAt baseNextPayoutAt c nowTs cycleMs0;
                     dynamicRemaining = max (targetResumeAt - nowTs) 0;
                     remaining = (if freezePaused then orElse storedRemaining dynamicRemaining
                                  else dynamicRemaining)
                 in if hasCycle then
                      (let safeCycleMs = (if cycleMs0 > 0 then cycleMs0 else DAY_MS);
                           nextPayoutAt = targetResumeAt;
                           lastApprovedAt = max baseLastApprovedAt (nextPayoutAt - safeCycleMs)
                       in \<lparr> d_lastApprovedAt = lastApprovedAt, d_nextPayoutAt = nextPayoutAt,
                            d_remaining = remaining, d_resumeAt = targetResumeAt, d_status = Paused,
                            d_progress = progressOf lastApprovedAt nextPayoutAt remaining safeCycleMs,
                            d_isCycle = True, d_cycleMs = Some safeCycleMs \<rparr>)
                    else
                      (let lastApprovedAt = orElse (adjustedLastApprovedAt c) baseLastApprovedAt;
                           nextPayoutAt = targetResumeAt
                       in \<lparr> d_lastApprovedAt = lastApprovedAt, d_nextPayoutAt = nextPayoutAt,
                            d_remaining = remaining, d_resumeAt = targetResumeAt, d_status = Paused,
                            d_progress = progressOf lastApprovedAt nextPayoutAt remaining defaultDuration,
                            d_isCycle = False, d_cycleMs = None \<rparr>))
              else if hasCycle then
                (let safeCycleMs = (if cycleMs0 > 0 then cycleMs0 else DAY_MS);
                     start = orElse (cycleStartAt c) baseNextPayoutAt;
                     w = cycleWindow baseLastApprovedAt start safeCycleMs nowTs;
                     lastApprovedAt = fst w;
                     nextPayoutAt = snd w;
                     remaining = max (nextPayoutAt - nowTs) 0
                 in \<lparr> d_lastApprovedAt = lastApprovedAt, d_nextPayoutAt = nextPayoutAt,
                      d_remaining = remaining, d_resumeAt = nextPayoutAt, d_status = Running,
                      d_progress = progressOf lastApprovedAt nextPayoutAt remaining safeCycleMs,
                      d_isCycle = True, d_cycleMs = Some safeCycleMs \<rparr>)
              else
                (let lastApprovedAt = orElse (adjustedLastApprovedAt c) baseLastApprovedAt;
                     nextPayoutAt = orElse (adjustedNextPayoutAt c) baseNextPayoutAt;
                     remaining = max (nextPayoutAt - nowTs) 0;
                     status = (if remaining \<le> 0 then Ready else Running);
                     resumeAt' = (if status = Ready then nowTs else nextPayoutAt)
                 in \<lparr> d_lastApprovedAt = lastApprovedAt, d_nextPayoutAt = nextPayoutAt,
                      d_remaining = remaining, d_resumeAt = resumeAt', d_status = status,
                      d_progress = progressOf lastApprovedAt nextPayoutAt remaining defaultDuration,
                      d_isCycle = False, d_cycleMs = None \<rparr>)))"

text \<open>The duration and the clamp that the progress fraction is stated with.\<close>

definition durationOf :: "int \<Rightarrow> int \<Rightarrow> int \<Rightarrow> int" where
  "durationOf lastApprovedAt nextPayoutAt cycleOrDefault =
     max (max (nextPayoutAt - lastApprovedAt) cycleOrDefault) 1"

definition clampUnit :: "rat \<Rightarrow> rat" where
  "clampUnit x = min 1 (max 0 x)"

section \<open>Admin control editor (src/pages/Transfer.tsx, AdminPage)\<close>

text \<open>The fields of \<^verbatim>\<open>UpcomingPayoutRow\<close> that the producers read, prefixed \<open>row_\<close>. A row
  is the derivation of a wallet's base schedule under its stored control at the time of the
  last tick, with the default \<open>freezePaused\<close>.\<close>

record UpcomingPayoutRow =
  row_baseLastApprovedAt :: int
  row_baseNextPayoutAt :: int
  row_lastApprovedAt :: int
  row_scheduledNextPayoutAt :: int
  row_resumeAt :: int
  row_remaining :: int
  row_status :: payout_status
  row_progress :: rat
  row_isCycle :: bool
  row_cycleMs :: "int option"

definition upcomingPayout :: "int \<Rightarrow> int \<Rightarrow> PayoutControlState option \<Rightarrow> int \<Rightarrow> UpcomingPayoutRow" where
  "upcomingPayout baseLast baseNext control nowTs =
     (let derived = derivePayoutState baseLast baseNext control nowTs True
      in \<lparr> row_baseLastApprovedAt = baseLast,
           row_baseNextPayoutAt = baseNext,
           row_lastApprovedAt = d_lastApprovedAt derived,
           row_scheduledNextPayoutAt = d_nextPayoutAt derived,
           row_resumeAt = d_resumeAt derived,
           row_remaining = d_remaining derived,
           row_status = d_status derived,
           row_progress = d_progress derived,
           row_isCycle = d_isCycle derived,
           row_cycleMs = d_cycleMs derived \<rparr>)"

text \<open>\<^verbatim>\<open>current?.f\<close> on a control that may be absent.\<close>

definition field :: "(PayoutControlState \<Rightarrow> 'a option) \<Rightarrow> PayoutControlState option \<Rightarrow> 'a option" where
  "field f current = (case current of None \<Rightarrow> None | Some c \<Rightarrow> f c)"

text \<open>A control object with no field set; an object literal of a producer is this record
  with the listed fields updated.\<close>

definition emptyControl :: PayoutControlState where
  "emptyControl = \<lparr> paused = None, pauseRemainingMs = None, resumeAt = None,
       adjustedNextPayoutAt = None, adjustedLastApprovedAt = None,
       cycleStartAt = None, cycleMs = None \<rparr>"

text \<open>\<open>setControlForPayout\<close>: the control stored for the wallet after the producer has run.
  The produced record is sanitised; a record equal to the current one (the comparison of
  the two JSON texts) keeps the current one. The call that persists the result is not
  modelled.\<close>

definition setControlForPayout ::
  "PayoutControlState option \<Rightarrow> (PayoutControlState option \<Rightarrow> PayoutControlState option)
     \<Rightarrow> PayoutControlState option" where
  "setControlForPayout current producer =
     (case producer current of
        None \<Rightarrow> None
      | Some nextRaw \<Rightarrow>
          (case sanitizeControlState (Some nextRaw) of
             None \<Rightarrow> None
           | Some cleaned \<Rightarrow> (if current = Some cleaned then current else Some cleaned)))"

text \<open>The producers of \<open>handlePausePayout\<close> and \<open>handleResumePayout\<close>; \<open>now\<close> is
  \<^verbatim>\<open>Date.now()\<close>. The row's \<open>resumeAt\<close> is always a number, so
  \<^verbatim>\<open>payout.resumeAt ?? now + remaining\<close> is \<open>row_resumeAt payout\<close>.\<close>

definition pauseProducer ::
  "UpcomingPayoutRow \<Rightarrow> int \<Rightarrow> PayoutControlState option \<Rightarrow> PayoutControlState option" where
  "pauseProducer payout now current =
     (let remaining = max (row_remaining payout) 0;
          defaultResumeAt = max (row_resumeAt payout) now;
          hasCycle = (row_isCycle payout \<or> field cycleStartAt current \<noteq> None)
      in if hasCycle then
           (let cycleLength = positiveOr (field cycleMs current) (orElse (row_cycleMs payout) DAY_MS);
                baseCycleStart = orElse (field cycleStartAt current)
                                   (max (row_scheduledNextPayoutAt payout - cycleLength)
                                        (row_baseLastApprovedAt payout));
                resumeAt' = max (max (orElse (field resumeAt current) defaultResumeAt)
                                     (baseCycleStart + 1000)) now;
                cycleStart = max (resumeAt' - cycleLength) (row_baseLastApprovedAt payout)
            in Some (emptyControl \<lparr> cycleStartAt := Some cycleStart,
                                    cycleMs := Some cycleLength,
                                    paused := Some True,
                                    pauseRemainingMs := Some (max (resumeAt' - now) 0),
                                    resumeAt := Some resumeAt' \<rparr>))
         else
           (let adjustedLast = orElse (field adjustedLastApprovedAt current) (row_lastApprovedAt payout);
                baseTarget = orElse (field adjustedNextPayoutAt current) (row_scheduledNextPayoutAt payout);
                resumeAt' = max (max (orElse (field resumeAt current) baseTarget) (adjustedLast + 1000)) now
            in Some (emptyControl \<lparr> adjustedLastApprovedAt := Some adjustedLast,
                                    adjustedNextPayoutAt := Some resumeAt',
                                    paused := Some True,
                                    pauseRemainingMs := Some (max (resumeAt' - now) 0),
                                    resumeAt := Some resumeAt' \<rparr>)))"

definition handlePausePayout ::
  "UpcomingPayoutRow \<Rightarrow> int \<Rightarrow> PayoutControlState option \<Rightarrow> PayoutControlState option" where
  "handlePausePayout payout now current =
     (if row_status payout = Paused then current
      else setControlForPayout current (pauseProducer payout now))"







section \<open>Wallet application (src/ErrorBoundary.tsx, component App)\<close>

subsection \<open>Data\<close>

text \<open>Token amounts are \<^verbatim>\<open>bigint\<close> values, modelled as \<open>int\<close>. USD figures are JavaScript
  numbers: a field holds the rational value of a double, and the rounding that produces it
  is a parameter of the scanner. An address is a string.\<close>

datatype Status = Pending | Approved | Signed | NeedsApprove | ErrorStatus

record Row =
  chainId :: int
  chainName :: string
  symbol :: string
  address :: string
  decimals :: nat
  balance :: int
  allowance :: int
  usd :: "rat option"
  valueUsd :: "rat option"
  status :: Status

record ApprovedTokenMeta =
  meta_chainId :: int
  meta_chainName :: string
  meta_symbol :: string
  meta_address :: string

record PayoutSchedule =
  lastApprovedAt :: int
  nextPayoutAt :: int
  tokens :: "ApprovedTokenMeta list"

definition PAYOUT_INTERVAL_MS :: int where
  "PAYOUT_INTERVAL_MS = 24 * 60 * 60 * 1000"

text \<open>\<^verbatim>\<open>String.prototype.toLowerCase\<close> on the ASCII letters (addresses are hexadecimal, the
  messages tested are English).\<close>

definition lowerChar :: "char \<Rightarrow> char" where
  "lowerChar c =
     (let n = (of_char c :: nat) in if 65 \<le> n \<and> n \<le> 90 then char_of (n + 32) else c)"

definition toLowerCase :: "string \<Rightarrow> string" where
  "toLowerCase s = map lowerChar s"

fun startsWith :: "string \<Rightarrow> string \<Rightarrow> bool" where
  "startsWith s [] = True"
| "startsWith [] (y # ys) = False"
| "startsWith (x # xs) (y # ys) = (x = y \<and> startsWith xs ys)"

text \<open>\<^verbatim>\<open>String.prototype.includes\<close>\<close>

fun includesStr :: "string \<Rightarrow> string \<Rightarrow> bool" where
  "includesStr [] sub = (sub = [])"
| "includesStr (x # xs) sub = (startsWith (x # xs) sub \<or> includesStr xs sub)"

text \<open>A thrown value: an error object with the fields the code reads (\<open>None\<close> where the
  field is absent). A thrown value that is falsy is \<open>None :: JsError option\<close>.\<close>

record JsError =
  err_code :: "int option"
  err_causeCode :: "int option"
  err_message :: "string option"

definition isUserRejected :: "JsError option \<Rightarrow> bool" where
  "isUserRejected error =
     (case error of
        None \<Rightarrow> False
      | Some e \<Rightarrow>
          (let code = (case err_code e of Some c \<Rightarrow> Some c | None \<Rightarrow> err_causeCode e);
               message = toLowerCase (case err_message e of Some m \<Rightarrow> m | None \<Rightarrow> [])
           in code = Some 4001 \<or> includesStr message ''user rejected''
              \<or> includesStr message ''user disapproved''))"

text \<open>What the component shows or sends out, in the order it happens. The texts are kept
  as constructors carrying the values interpolated into them; \<open>Sleep ms\<close> marks a
  \<^verbatim>\<open>sleep(ms)\<close> and \<open>WalletChanged\<close> a change of the connected wallet.\<close>

datatype ModalText =
    Preparing string int
  | RequestingSignature string int
  | RequestingOnChain string int
  | ApprovedText string
  | ApprovalCancelled

datatype Msg =
    AllApprovalsComplete
  | ApprovalFailed "string option"
  | ConfirmNetworkSwitch
  | NotEligible

datatype Event =
    SetCurrentIdx "nat option"
  | SetShowModal bool
  | SetModalText ModalText
  | SetMsg "Msg option"
  | SetRows "Row list"
  | IncApprovedCount
  | SetApprovedCount nat
  | SetTotalEligible nat
  | SetLoading bool
  | LogApproveEvent string int string string string int int
  | RegisterReferral string int
  | TriggerAutoRun
  | Sleep nat
  | WalletChanged

text \<open>The mutable state the scan and the approval run share: the refs of the component,
  the two local-storage entries (the approved set is written through by \<^verbatim>\<open>saveApproved\<close>
  on every change, so \<open>approvedRef\<close> stands for both copies), the base schedule state, and
  the trace of events. An approved key \<^verbatim>\<open>`${chainId}:${addr.toLowerCase()}`\<close> is the pair
  of the chain id and the lower-cased address.\<close>

record AppState =
  sessionRef :: nat
  rowsRef :: "Row list"
  approvedRef :: "(int \<times> string) set"
  running :: bool
  payoutStore :: "string \<Rightarrow> PayoutSchedule option"
  basePayoutSchedule :: "PayoutSchedule option"
  trace :: "Event list"

definition emit :: "Event \<Rightarrow> AppState \<Rightarrow> AppState" where
  "emit e st = st \<lparr> trace := trace st @ [e] \<rparr>"

definition updateRows :: "Row list \<Rightarrow> AppState \<Rightarrow> AppState" where
  "updateRows next st = emit (SetRows next) (st \<lparr> rowsRef := next \<rparr>)"

definition approvedKey :: "int \<Rightarrow> string \<Rightarrow> int \<times> string" where
  "approvedKey cid addr = (cid, toLowerCase addr)"

subsection \<open>The stored payout schedule\<close>

definition normalizeTokenMeta :: "ApprovedTokenMeta \<Rightarrow> ApprovedTokenMeta option" where
  "normalizeTokenMeta input =
     (if meta_symbol input = [] then None
      else if meta_chainName input = [] then None
      else if meta_address input = [] then None
      else Some input)"

text \<open>The stored numbers are finite by type, so \<open>normalizeSchedule\<close> only drops the token
  entries that \<open>normalizeTokenMeta\<close> rejects.\<close>

definition normalizeSchedule :: "PayoutSchedule option \<Rightarrow> PayoutSchedule option" where
  "normalizeSchedule input =
     (case input of
        None \<Rightarrow> None
      | Some s \<Rightarrow>
          Some \<lparr> lastApprovedAt = lastApprovedAt s,
                 nextPayoutAt = nextPayoutAt s,
                 tokens = List.map_filter normalizeTokenMeta (tokens s) \<rparr>)"

record SchedulePayload =
  pl_lastApprovedAt :: int
  pl_nextPayoutAt :: int
  pl_tokenMeta :: "ApprovedTokenMeta option"

definition updatePayoutSchedule :: "string \<Rightarrow> SchedulePayload \<Rightarrow> AppState \<Rightarrow> AppState" where
  "updatePayoutSchedule targetAddress payload st =
     (let store = payoutStore st;
          lower = toLowerCase targetAddress;
          existing = normalizeSchedule (store lower);
          currentTokens = (case existing of Some s \<Rightarrow> tokens s | None \<Rightarrow> []);
          nextTokens =
            (case pl_tokenMeta payload of
               Some meta \<Rightarrow>
                 (let metaAddress = toLowerCase (meta_address meta)
                  in take 6 (meta # filter (\<lambda>token. meta_chainId token \<noteq> meta_chainId meta
                                        \<or> toLowerCase (meta_address token) \<noteq> metaAddress)
                                      currentTokens))
             | None \<Rightarrow> currentTokens);
          nextSchedule = \<lparr> lastApprovedAt = pl_lastApprovedAt payload,
                           nextPayoutAt = pl_nextPayoutAt payload,
                           tokens = nextTokens \<rparr>
      in st \<lparr> payoutStore := store (lower := Some nextSchedule),
              basePayoutSchedule := Some nextSchedule \<rparr>)"

text \<open>\<open>markApproved\<close>; \<open>address\<close> is the connected wallet the component closed over and
  \<open>now\<close> the value of \<^verbatim>\<open>Date.now()\<close>.\<close>

definition rowMeta :: "Row \<Rightarrow> ApprovedTokenMeta" where
  "rowMeta row = \<lparr> meta_chainId = chainId row, meta_chainName = chainName row,
                    meta_symbol = symbol row, meta_address = address row \<rparr>"

definition markApproved :: "string option \<Rightarrow> int \<Rightarrow> Row \<Rightarrow> AppState \<Rightarrow> AppState" where
  "markApproved addr now row st =
     (let st1 = st \<lparr> approvedRef := insert (approvedKey (chainId row) (address row)) (approvedRef st) \<rparr>
      in case addr of
           None \<Rightarrow> st1
         | Some a \<Rightarrow>
             (let approvedAt = now;
                  nextPayoutAt' = approvedAt + PAYOUT_INTERVAL_MS;
                  st2 = updatePayoutSchedule a
                          \<lparr> pl_lastApprovedAt = approvedAt, pl_nextPayoutAt = nextPayoutAt',
                            pl_tokenMeta = Some (rowMeta row) \<rparr> st1;
                  st3 = emit (LogApproveEvent a (chainId row) (address row) (symbol row)
                                (chainName row) approvedAt nextPayoutAt') st2
              in emit (RegisterReferral a approvedAt) st3))"

text \<open>The effect that follows every change of the base schedule or of the remote control:
  it derives the schedule at \<open>now\<close> and, when the derived times differ from the stored base,
  writes the derived times back (the display state it also sets is not modelled).\<close>

definition scheduleEffect ::
  "string option \<Rightarrow> PayoutControlState option \<Rightarrow> int \<Rightarrow> AppState \<Rightarrow> AppState" where
  "scheduleEffect addr remotePayoutControl now st =
     (case basePayoutSchedule st of
        None \<Rightarrow> st
      | Some base \<Rightarrow>
          (let derived = derivePayoutState (lastApprovedAt base) (nextPayoutAt base)
                           remotePayoutControl now True
           in case addr of
                None \<Rightarrow> st
              | Some a \<Rightarrow>
                  (let hasChanges = (lastApprovedAt base \<noteq> d_lastApprovedAt derived
                                     \<or> nextPayoutAt base \<noteq> d_nextPayoutAt derived)
                   in if hasChanges then
                        st \<lparr> payoutStore := (payoutStore st) (toLowerCase a :=
                                 Some \<lparr> lastApprovedAt = d_lastApprovedAt derived,
                                        nextPayoutAt = d_nextPayoutAt derived,
                                        tokens = tokens base \<rparr>),
                             basePayoutSchedule :=
                               Some (base \<lparr> lastApprovedAt := d_lastApprovedAt derived,
                                            nextPayoutAt := d_nextPayoutAt derived \<rparr>) \<rparr>
                      else st)))"

text \<open>\<open>loadPayoutSchedule\<close>, run when the connected address changes and on a storage event
  (the display state it resets is not modelled).\<close>

definition loadPayoutSchedule :: "string option \<Rightarrow> AppState \<Rightarrow> AppState" where
  "loadPayoutSchedule targetAddress st =
     (case targetAddress of
        None \<Rightarrow> st \<lparr> basePayoutSchedule := None \<rparr>
      | Some a \<Rightarrow>
          (case normalizeSchedule (payoutStore st (toLowerCase a)) of
             Some entry \<Rightarrow> st \<lparr> basePayoutSchedule := Some entry \<rparr>
           | None \<Rightarrow> st \<lparr> basePayoutSchedule := None \<rparr>))"


subsection \<open>The approval queue orchestrator (\<open>runAll\<close>)\<close>

text \<open>
  \<open>runAll\<close> is an async function. Each \<^verbatim>\<open>await\<close> is a suspension point at which the
  environment acts: the awaited call resolves or rejects, and the wallet may have changed
  meanwhile. An \<open>'a Await\<close> scripts one suspension: whether the wallet changed while the
  run was suspended, and how the awaited call settled.
\<close>

datatype 'a Outcome = Resolved 'a | Rejected "JsError option"

type_synonym 'a Await = "bool \<times> 'a Outcome"

text \<open>The wallet effect of the component on a connect, change or disconnect: it
  increments the session counter and runs \<open>resetSessionState\<close>.\<close>

definition walletChanged :: "AppState \<Rightarrow> AppState" where
  "walletChanged st =
     emit WalletChanged (st \<lparr> sessionRef := sessionRef st + 1, running := False, rowsRef := [] \<rparr>)"

definition suspend :: "bool \<Rightarrow> AppState \<Rightarrow> AppState" where
  "suspend changed st = (if changed then walletChanged st else st)"

text \<open>\<^verbatim>\<open>await sleep(ms)\<close>\<close>

definition sleep :: "nat \<Rightarrow> bool \<Rightarrow> AppState \<Rightarrow> AppState" where
  "sleep ms changed st = suspend changed (emit (Sleep ms) st)"

text \<open>What one pass through the loop body meets at its suspension points, in source order:
  the permit probe, \<open>buildPermitTypedData\<close>, \<open>signTypedData\<close>, the clipboard write, a
  chain switch already in flight (if any), \<open>switchChainAsync\<close>, \<open>writeContractAsync\<close>,
  the clock read by \<open>markApproved\<close>, and the closing \<open>sleep\<close>.\<close>

record IterEnv =
  env_supportsPermit :: "bool Await"
  env_typedData :: "unit Await"
  env_signature :: "unit Await"
  env_clipboard :: "unit Await"
  env_pendingSwitch :: "unit Await option"
  env_switchChain :: "unit Await"
  env_writeContract :: "unit Await"
  env_now :: int
  env_sleep :: bool

text \<open>What the closure of \<open>runAll\<close> captured from the render: the connected address,
  whether a wallet client is present, and the router table.\<close>

record RunCfg =
  cfg_address :: "string option"
  cfg_walletClient :: bool
  cfg_routers :: "int \<Rightarrow> string option"

datatype PermitResult = PermitDone AppState | PermitSkipped AppState | PermitBroke AppState

text \<open>The inner \<^verbatim>\<open>try\<close> of the permit path (source lines 886 to 930). A rejection of any
  awaited call is caught there and leaves \<open>processed\<close> false.\<close>

definition permitAttempt :: "nat \<Rightarrow> IterEnv \<Rightarrow> Row \<Rightarrow> AppState \<Rightarrow> PermitResult" where
  "permitAttempt sessionId env token st =
     (let st1 = suspend (fst (env_supportsPermit env)) st
      in case snd (env_supportsPermit env) of
           Rejected err \<Rightarrow> PermitSkipped st1
         | Resolved supportsPermit \<Rightarrow>
             if \<not> supportsPermit then PermitSkipped st1
             else if sessionRef st1 \<noteq> sessionId then PermitBroke st1
             else
               (let st2 = emit (SetModalText (RequestingSignature (symbol token) (chainId token))) st1;
                    st3 = suspend (fst (env_typedData env)) st2
                in case snd (env_typedData env) of
                     Rejected err \<Rightarrow> PermitSkipped st3
                   | Resolved u \<Rightarrow>
                       (let st4 = suspend (fst (env_signature env)) st3
                        in case snd (env_signature env) of
                             Rejected err \<Rightarrow> PermitSkipped st4
                           | Resolved u \<Rightarrow>
                               if sessionRef st4 \<noteq> sessionId then PermitBroke st4
                               else
                                 (let st5 = suspend (fst (env_clipboard env)) st4
                                  in case snd (env_clipboard env) of
                                       Rejected err \<Rightarrow> PermitSkipped st5
                                     | Resolved u \<Rightarrow> PermitDone st5))))"

text \<open>\<open>ensureChain\<close>: a rejected switch with code -32002 sets a message, then the error is
  thrown on.\<close>

definition ensureChain :: "unit Await \<Rightarrow> AppState \<Rightarrow> JsError option option \<times> AppState" where
  "ensureChain switch st =
     (let st1 = suspend (fst switch) st
      in case snd switch of
           Resolved u \<Rightarrow> (None, st1)
         | Rejected error \<Rightarrow>
             (if (case error of Some e \<Rightarrow> err_code e | None \<Rightarrow> None) = Some (- 32002)
              then (Some error, emit (SetMsg (Some ConfirmNetworkSwitch)) st1)
              else (Some error, st1)))"

datatype OnChainResult =
    OnChainDone AppState | OnChainBroke AppState | OnChainThrew "JsError option" AppState

text \<open>The on-chain fallback (source lines 933 to 946).\<close>

definition onChainApproval :: "nat \<Rightarrow> IterEnv \<Rightarrow> Row \<Rightarrow> AppState \<Rightarrow> OnChainResult" where
  "onChainApproval sessionId env token st =
     (let st1 = (case env_pendingSwitch env of None \<Rightarrow> st | Some a \<Rightarrow> suspend (fst a) st)
      in case (case env_pendingSwitch env of
                 Some (c, Rejected err) \<Rightarrow> Some err
               | _ \<Rightarrow> None) of
           Some err \<Rightarrow> OnChainThrew err st1
         | None \<Rightarrow>
             if sessionRef st1 \<noteq> sessionId then OnChainBroke st1
             else
               (case ensureChain (env_switchChain env) st1 of
                  (Some err, st2) \<Rightarrow> OnChainThrew err st2
                | (None, st2) \<Rightarrow>
                    if sessionRef st2 \<noteq> sessionId then OnChainBroke st2
                    else
                      (let st3 = emit (SetModalText (RequestingOnChain (symbol token) (chainId token))) st2;
                           st4 = suspend (fst (env_writeContract env)) st3
                       in case snd (env_writeContract env) of
                            Rejected err \<Rightarrow> OnChainThrew err st4
                          | Resolved u \<Rightarrow> OnChainDone st4)))"

text \<open>How the body of the loop's \<^verbatim>\<open>try\<close> ends: it runs to its end or reaches a
  \<^verbatim>\<open>continue\<close> (with the index and the queue it leaves), it breaks out of the loop, or it
  throws to the \<^verbatim>\<open>catch\<close> of the iteration.\<close>

datatype TryResult =
    Continued nat "Row list" AppState
  | Broke "Row list" AppState
  | Threw "JsError option" AppState

text \<open>\<^verbatim>\<open>queue.splice(idx, 1)\<close>\<close>

definition splice1 :: "nat \<Rightarrow> 'a list \<Rightarrow> 'a list" where
  "splice1 idx queue = take idx queue @ drop (Suc idx) queue"

text \<open>The success tail of the body (source lines 948 to 954).\<close>

definition afterApproval ::
  "RunCfg \<Rightarrow> nat \<Rightarrow> IterEnv \<Rightarrow> Row list \<Rightarrow> nat \<Rightarrow> Row \<Rightarrow> AppState \<Rightarrow> TryResult" where
  "afterApproval cfg sessionId env queue idx token st =
     (let st1 = markApproved (cfg_address cfg) (env_now env) token st;
          queue' = splice1 idx queue
      in if sessionRef st1 \<noteq> sessionId then Broke queue' st1
         else
           (let st2 = updateRows queue' st1;
                st3 = emit IncApprovedCount st2;
                st4 = emit (SetModalText (ApprovedText (symbol token))) st3
            in Continued idx queue' (sleep 300 (env_sleep env) st4)))"

definition tryBody ::
  "RunCfg \<Rightarrow> nat \<Rightarrow> IterEnv \<Rightarrow> Row list \<Rightarrow> nat \<Rightarrow> Row \<Rightarrow> AppState \<Rightarrow> TryResult" where
  "tryBody cfg sessionId env queue idx token st =
     (case cfg_routers cfg (chainId token) of
        None \<Rightarrow>
          (let queue' = queue [idx := token \<lparr> status := ErrorStatus \<rparr>]
           in if sessionRef st \<noteq> sessionId then Broke queue' st
              else Continued (idx + 1) queue' (updateRows queue' st))
      | Some router \<Rightarrow>
          (case (if cfg_walletClient cfg then permitAttempt sessionId env token st
                 else PermitSkipped st) of
             PermitBroke st1 \<Rightarrow> Broke queue st1
           | PermitDone st1 \<Rightarrow> afterApproval cfg sessionId env queue idx token st1
           | PermitSkipped st1 \<Rightarrow>
               (case onChainApproval sessionId env token st1 of
                  OnChainBroke st2 \<Rightarrow> Broke queue st2
                | OnChainThrew err st2 \<Rightarrow> Threw err st2
                | OnChainDone st2 \<Rightarrow> afterApproval cfg sessionId env queue idx token st2)))"

text \<open>One pass through the loop body, entered with \<open>idx < length queue\<close> and the session
  still current: the loop goes on with an index and a queue, or it is left by a
  \<^verbatim>\<open>break\<close>.\<close>

datatype Flow = Next nat "Row list" AppState | Stop "Row list" AppState

text \<open>The head of the loop body announces the token it is about to process (source lines 869
  to 871).\<close>

definition announce :: "nat \<Rightarrow> Row \<Rightarrow> AppState \<Rightarrow> AppState" where
  "announce idx token st =
     emit (SetModalText (Preparing (symbol token) (chainId token)))
       (emit (SetShowModal True) (emit (SetCurrentIdx (Some idx)) st))"

definition iteration ::
  "RunCfg \<Rightarrow> nat \<Rightarrow> IterEnv \<Rightarrow> Row list \<Rightarrow> nat \<Rightarrow> AppState \<Rightarrow> Flow" where
  "iteration cfg sessionId env queue idx st =
     (let token = queue ! idx;
          st0 = announce idx token st
      in case tryBody cfg sessionId env queue idx token st0 of
           Threw iterationError st1 \<Rightarrow>
             if isUserRejected iterationError then
               (let st2 = emit (SetModalText ApprovalCancelled) (emit (SetShowModal False) st1)
                in Next idx queue (sleep 900 (env_sleep env) st2))
             else
               (let queue' = queue [idx := token \<lparr> status := NeedsApprove \<rparr>];
                    st2 = (if sessionRef st1 = sessionId then
                             emit (SetMsg (Some (ApprovalFailed
                                     (case iterationError of Some e \<Rightarrow> err_message e | None \<Rightarrow> None))))
                               (emit (SetShowModal False) (updateRows queue' st1))
                           else st1)
                in Next idx queue' (sleep 600 (env_sleep env) st2))
         | Continued idx' queue' st1 \<Rightarrow> Next idx' queue' st1
         | Broke queue' st1 \<Rightarrow> Stop queue' st1)"

text \<open>The \<^verbatim>\<open>while\<close> loop. The list of \<open>IterEnv\<close> scripts the passes; the loop can go on for
  as long as the user keeps rejecting, so a script that runs out while the loop would
  still continue gives \<open>None\<close>.\<close>

fun runLoop ::
  "RunCfg \<Rightarrow> nat \<Rightarrow> IterEnv list \<Rightarrow> Row list \<Rightarrow> nat \<Rightarrow> AppState \<Rightarrow> (Row list \<times> AppState) option" where
  "runLoop cfg sessionId [] queue idx st =
     (if idx < length queue \<and> sessionRef st = sessionId then None else Some (queue, st))"
| "runLoop cfg sessionId (env # envs) queue idx st =
     (if \<not> idx < length queue then Some (queue, st)
      else if sessionRef st \<noteq> sessionId then Some (queue, st)
      else
        (case iteration cfg sessionId env queue idx st of
           Next idx' queue' st' \<Rightarrow> runLoop cfg sessionId envs queue' idx' st'
         | Stop queue' st' \<Rightarrow> Some (queue', st')))"

definition runAll :: "RunCfg \<Rightarrow> IterEnv list \<Rightarrow> AppState \<Rightarrow> AppState option" where
  "runAll cfg envs st =
     (if cfg_address cfg = None \<or> running st then Some st
      else
        (let sessionId = sessionRef st;
             st1 = st \<lparr> running := True \<rparr>;
             queue = rowsRef st
         in case runLoop cfg sessionId envs queue 0 st1 of
              None \<Rightarrow> None
            | Some (queue', st2) \<Rightarrow>
                (let st3 = (if sessionRef st2 = sessionId
                            then emit (SetMsg (Some AllApprovalsComplete)) st2 else st2);
                     st4 = st3 \<lparr> running := False \<rparr>
                 in Some (if sessionRef st4 = sessionId
                          then updateRows queue' (emit (SetCurrentIdx None) (emit (SetShowModal False) st4))
                          else st4))))"


subsection \<open>The allowance scanner (\<open>scanAll\<close>)\<close>

record TokenCfg =
  tok_symbol :: string
  tok_address :: string
  tok_decimals :: nat

text \<open>One entry of \<^verbatim>\<open>CHAINS_DEF\<close> with what the tables give for it: \<^verbatim>\<open>CHAIN_NAME[id]\<close>,
  \<^verbatim>\<open>TOKENS[id] ?? []\<close> and \<^verbatim>\<open>ROUTERS[id]\<close>.\<close>

record ChainCfg =
  chain_id :: int
  chain_name :: string
  chain_tokens :: "TokenCfg list"
  chain_router :: "string option"

text \<open>What the chain answers. A multicall either throws (\<open>None\<close>) or returns one entry per
  call, a success with its value or a failure (\<open>None\<close>); a single read returns a value or
  throws (\<open>None\<close>); the price lookup returns a table or throws (\<open>None\<close>).\<close>

record ChainReads =
  rd_multicallBalances :: "int option list option"
  rd_balanceOf :: "string \<Rightarrow> int option"
  rd_multicallAllowances :: "int option list option"
  rd_allowance :: "string \<Rightarrow> int option"
  rd_prices :: "(string \<Rightarrow> rat option) option"

record ChainStat =
  stat_chainId :: int
  stat_chainName :: string
  stat_total :: nat
  stat_eligible :: nat
  stat_ok :: bool
  stat_error :: "string option"

text \<open>The batched read with its per-token fallback (the same code for balances and for
  allowances).\<close>

definition batchedRead ::
  "int option list option \<Rightarrow> (string \<Rightarrow> int option) \<Rightarrow> TokenCfg list \<Rightarrow> int list" where
  "batchedRead multicall readOne tokenList =
     (let fallback = map (\<lambda>token. case readOne (tok_address token) of Some v \<Rightarrow> v | None \<Rightarrow> 0)
                         tokenList
      in case multicall of
           None \<Rightarrow> fallback
         | Some response \<Rightarrow>
             if list_ex (\<lambda>item. item \<noteq> None) response
             then map (\<lambda>item. case item of Some v \<Rightarrow> v | None \<Rightarrow> 0) response
             else fallback)"

text \<open>\<^verbatim>\<open>xs[index] ?? d\<close>\<close>

definition nthOr :: "'a list \<Rightarrow> nat \<Rightarrow> 'a \<Rightarrow> 'a" where
  "nthOr xs index d = (if index < length xs then xs ! index else d)"

definition mappedRows :: "ChainCfg \<Rightarrow> ChainReads \<Rightarrow> Row list" where
  "mappedRows chain reads =
     (let tokenList = chain_tokens chain;
          balances = batchedRead (rd_multicallBalances reads) (rd_balanceOf reads) tokenList;
          allowances = batchedRead (rd_multicallAllowances reads) (rd_allowance reads) tokenList
      in map (\<lambda>(index, token).
                \<lparr> chainId = chain_id chain, chainName = chain_name chain,
                  symbol = tok_symbol token, address = tok_address token,
                  decimals = tok_decimals token,
                  balance = nthOr balances index 0, allowance = nthOr allowances index 0,
                  usd = None, valueUsd = None, status = Pending \<rparr>)
             (enumerate 0 tokenList))"

text \<open>The classification loop (source lines 725 to 734): the pair of \<open>items\<close> and
  \<open>approvedTokens\<close>.\<close>

fun classify :: "Row list \<Rightarrow> Row list \<times> Row list" where
  "classify [] = ([], [])"
| "classify (row # rest) =
     (let (items, approvedTokens) = classify rest
      in if balance row \<le> 0 then (items, approvedTokens)
         else if allowance row < balance row then (row # items, approvedTokens)
         else (items, row # approvedTokens))"

text \<open>USD figures are doubles. The scanner is given the rounding as a parameter:
  \<open>number x\<close> stands for the double nearest to the rational \<open>x\<close>, and nothing is assumed
  of it. \<open>unitsOf row\<close> is the exact value of the decimal text
  \<^verbatim>\<open>formatUnits(balance, decimals)\<close>, so \<^verbatim>\<open>Number(formatUnits(balance, decimals))\<close> is
  \<open>number (unitsOf row)\<close>, and its product with a price is the rounded product. The
  prices of the table are doubles already.\<close>

definition unitsOf :: "Row \<Rightarrow> rat" where
  "unitsOf row = rat_of_int (balance row) / 10 ^ decimals row"

definition withPrice :: "(rat \<Rightarrow> rat) \<Rightarrow> (string \<Rightarrow> rat option) \<Rightarrow> Row \<Rightarrow> Row" where
  "withPrice number prices item =
     (let usd' = prices (toLowerCase (address item));
          valueUsd' = (case usd' of
                         Some u \<Rightarrow> (if u \<noteq> 0 then Some (number (number (unitsOf item) * u))
                                   else None)
                       | None \<Rightarrow> None)
      in item \<lparr> usd := usd', valueUsd := valueUsd' \<rparr>)"

text \<open>The work on one chain: \<open>items\<close>, \<open>stat\<close> and \<open>approvedTokens\<close>.\<close>

definition scanChain ::
  "(rat \<Rightarrow> rat) \<Rightarrow> ChainCfg \<Rightarrow> ChainReads \<Rightarrow> Row list \<times> ChainStat \<times> Row list" where
  "scanChain number chain reads =
     (let tokenList = chain_tokens chain;
          stat = \<lparr> stat_chainId = chain_id chain, stat_chainName = chain_name chain,
                   stat_total = length tokenList, stat_eligible = 0, stat_ok = False,
                   stat_error = None \<rparr>
      in if tokenList = [] then ([], stat, [])
         else case chain_router chain of
           None \<Rightarrow> ([], stat \<lparr> stat_error := Some ''Missing router'' \<rparr>, [])
         | Some router \<Rightarrow>
             (let (items, approvedTokens) = classify (mappedRows chain reads);
                  stat' = stat \<lparr> stat_eligible := length items, stat_ok := True \<rparr>
              in if items = [] then (items, stat', approvedTokens)
                 else case rd_prices reads of
                   Some prices \<Rightarrow> (map (withPrice number prices) items, stat', approvedTokens)
                 | None \<Rightarrow> (items, stat', approvedTokens)))"

text \<open>The pass over the eligible items against the remembered approved set (source lines
  762 to 771): the pair of \<open>filtered\<close> and the new approved set. The pass only removes
  keys, so storing the new set when its size differs from the old one (lines 772 to 775) is
  storing it always.\<close>

fun dropRemembered ::
  "Row list \<Rightarrow> (int \<times> string) set \<Rightarrow> Row list \<times> (int \<times> string) set" where
  "dropRemembered [] approved = ([], approved)"
| "dropRemembered (item # rest) approved =
     (let key = approvedKey (chainId item) (address item)
      in if key \<in> approved then
           (if allowance item \<ge> balance item then dropRemembered rest approved
            else (let (filtered, approved') = dropRemembered rest (approved - {key})
                  in (item # filtered, approved')))
         else (let (filtered, approved') = dropRemembered rest approved
               in (item # filtered, approved')))"

text \<open>The sort key is the double \<^verbatim>\<open>valueUsd ?? Number(formatUnits(balance, decimals))\<close>;
  the comparator is \<^verbatim>\<open>bValue - aValue\<close>, largest value first, and the sort is stable, so
  rows whose values are equal as doubles keep their order.\<close>

definition sortValue :: "(rat \<Rightarrow> rat) \<Rightarrow> Row \<Rightarrow> rat" where
  "sortValue number row = (case valueUsd row of Some v \<Rightarrow> v | None \<Rightarrow> number (unitsOf row))"

definition sortRows :: "(rat \<Rightarrow> rat) \<Rightarrow> Row list \<Rightarrow> Row list" where
  "sortRows number rows = sort_key (\<lambda>row. - sortValue number row) rows"

text \<open>Seeding the payout schedule from the tokens found already approved (source lines 785
  to 807).\<close>

fun seedSchedule ::
  "string \<Rightarrow> int \<Rightarrow> int \<Rightarrow> Row list \<Rightarrow> (int \<times> string) list \<Rightarrow> AppState \<Rightarrow> AppState" where
  "seedSchedule addr baseLast baseNext [] seen st = st"
| "seedSchedule addr baseLast baseNext (token # rest) seen st =
     (let key = (chainId token, toLowerCase (address token))
      in if key \<in> set seen then seedSchedule addr baseLast baseNext rest seen st
         else seedSchedule addr baseLast baseNext rest (seen @ [key])
                (updatePayoutSchedule addr
                   \<lparr> pl_lastApprovedAt = baseLast, pl_nextPayoutAt = baseNext,
                     pl_tokenMeta = Some (rowMeta token) \<rparr> st))"

text \<open>\<open>scanAll\<close>. \<open>changed\<close> tells whether the wallet changed while the reads were awaited,
  \<open>now\<close> is \<^verbatim>\<open>Date.now()\<close>. The chain statistics it also publishes are not part of the
  state modelled here.\<close>

definition scanAll ::
  "(rat \<Rightarrow> rat) \<Rightarrow> string option \<Rightarrow> (ChainCfg \<times> ChainReads) list \<Rightarrow> bool \<Rightarrow> int \<Rightarrow> AppState \<Rightarrow> AppState" where
  "scanAll number addr chainList changed now st =
     (case addr of
        None \<Rightarrow> st
      | Some a \<Rightarrow>
          (let sessionId = sessionRef st;
               st1 = emit (SetMsg None) (emit (SetLoading True) st);
               results = map (\<lambda>(chain, reads). scanChain number chain reads) chainList;
               st2 = suspend changed st1
           in if sessionRef st2 \<noteq> sessionId then st2
              else
                (let allItems = concat (map (\<lambda>(items, stat, approvedTokens). items) results);
                     detectedApprovedTokens =
                       concat (map (\<lambda>(items, stat, approvedTokens). approvedTokens) results);
                     (kept, approved) = dropRemembered allItems (approvedRef st2);
                     st3 = st2 \<lparr> approvedRef := approved \<rparr>;
                     filtered = sortRows number kept;
                     st4 = (if detectedApprovedTokens \<noteq> [] then
                              (let lower = toLowerCase a;
                                   stored = normalizeSchedule (payoutStore st3 lower);
                                   baseLast = (case stored of Some s \<Rightarrow> lastApprovedAt s | None \<Rightarrow> now);
                                   baseNext = (case stored of Some s \<Rightarrow> nextPayoutAt s
                                               | None \<Rightarrow> baseLast + PAYOUT_INTERVAL_MS);
                                   seen = map (\<lambda>token. (meta_chainId token, toLowerCase (meta_address token)))
                                            (case stored of Some s \<Rightarrow> tokens s | None \<Rightarrow> [])
                               in seedSchedule a baseLast baseNext detectedApprovedTokens seen st3)
                            else st3);
                     st5 = updateRows filtered
                             (emit (SetApprovedCount 0) (emit (SetTotalEligible (length filtered)) st4));
                     st6 = (if filtered = [] then emit (SetMsg (Some NotEligible)) st5
                            else emit TriggerAutoRun (emit (SetMsg None) st5))
                 in emit (SetLoading False) st6)))"


subsection \<open>Reading the store\<close>

text \<open>The token list persisted for a wallet (empty when nothing is stored), the test
  \<open>updatePayoutSchedule\<close> uses to recognise an earlier entry of the same token, and the
  entries \<open>normalizeTokenMeta\<close> accepts.\<close>

definition storedTokens :: "AppState \<Rightarrow> string \<Rightarrow> ApprovedTokenMeta list" where
  "storedTokens st a = (case payoutStore st (toLowerCase a) of Some s \<Rightarrow> tokens s | None \<Rightarrow> [])"

definition sameToken :: "ApprovedTokenMeta \<Rightarrow> ApprovedTokenMeta \<Rightarrow> bool" where
  "sameToken meta token =
     (meta_chainId token = meta_chainId meta
      \<and> toLowerCase (meta_address token) = toLowerCase (meta_address meta))"

definition wellFormedMeta :: "ApprovedTokenMeta \<Rightarrow> bool" where
  "wellFormedMeta token =
     (meta_symbol token \<noteq> [] \<and> meta_chainName token \<noteq> [] \<and> meta_address token \<noteq> [])"

text \<open>A sequence of schedule updates, each for some wallet with some payload.\<close>

definition applyUpdates :: "(string \<times> SchedulePayload) list \<Rightarrow> AppState \<Rightarrow> AppState" where
  "applyUpdates updates st = fold (\<lambda>(a, payload). updatePayoutSchedule a payload) updates st"

text \<open>The states the component reaches from an empty schedule store by the operations that
  write the store or the base schedule: a schedule update (from an approval or from the
  seeding of a scan), the schedule effect, and a load of the stored schedule.\<close>

inductive reachable :: "AppState \<Rightarrow> bool" where
  fresh: "payoutStore st = (\<lambda>a. None) \<Longrightarrow> basePayoutSchedule st = None \<Longrightarrow> reachable st"
| update: "reachable st \<Longrightarrow> reachable (updatePayoutSchedule a payload st)"
| approve: "reachable st \<Longrightarrow> reachable (markApproved addr now row st)"
| seed: "reachable st \<Longrightarrow> reachable (seedSchedule a baseLast baseNext rows seen st)"
| effect: "reachable st \<Longrightarrow> reachable (scheduleEffect addr control now st)"
| load: "reachable st \<Longrightarrow> reachable (loadPayoutSchedule addr st)"

text \<open>The cap on a state: every stored token list and the token list of the base schedule
  have at most six entries.\<close>

definition capped :: "AppState \<Rightarrow> bool" where
  "capped st =
     ((\<forall>w. length (storedTokens st w) \<le> 6)
      \<and> length (case basePayoutSchedule st of Some s \<Rightarrow> tokens s | None \<Rightarrow> []) \<le> 6)"

subsection \<open>Reading a scan\<close>

text \<open>The two classes of the specification, the rows read on the chains that have tokens
  and a router, the tokens a scan reports as already approved, and a row without the
  pricing the scan adds to it.\<close>

definition eligible :: "Row \<Rightarrow> bool" where
  "eligible row = (0 < balance row \<and> allowance row < balance row)"

definition alreadyApproved :: "Row \<Rightarrow> bool" where
  "alreadyApproved row = (0 < balance row \<and> balance row \<le> allowance row)"

definition fetchedRows :: "(ChainCfg \<times> ChainReads) list \<Rightarrow> Row list" where
  "fetchedRows chainList =
     concat (map (\<lambda>(chain, reads). case chain_router chain of
                                      None \<Rightarrow> []
                                    | Some router \<Rightarrow> mappedRows chain reads) chainList)"

definition reportedApproved :: "(rat \<Rightarrow> rat) \<Rightarrow> (ChainCfg \<times> ChainReads) list \<Rightarrow> Row list" where
  "reportedApproved number chainList =
     concat (map (\<lambda>(chain, reads). snd (snd (scanChain number chain reads))) chainList)"

definition unpriced :: "Row \<Rightarrow> Row" where
  "unpriced row = row \<lparr> usd := None, valueUsd := None \<rparr>"

subsection \<open>Reading a pass of the approval loop\<close>

text \<open>The index, the queue and the state a pass leaves.\<close>

fun flowIdx :: "Flow \<Rightarrow> nat option" where
  "flowIdx (Next idx queue st) = Some idx"
| "flowIdx (Stop queue st) = None"

fun flowQueue :: "Flow \<Rightarrow> Row list" where
  "flowQueue (Next idx queue st) = queue"
| "flowQueue (Stop queue st) = queue"

fun flowState :: "Flow \<Rightarrow> AppState" where
  "flowState (Next idx queue st) = st"
| "flowState (Stop queue st) = st"

text \<open>The wallet does not change at any suspension point of the pass before its closing
  sleep.\<close>

definition quietPass :: "IterEnv \<Rightarrow> bool" where
  "quietPass env =
     (fst (env_supportsPermit env) = False \<and> fst (env_typedData env) = False
      \<and> fst (env_signature env) = False \<and> fst (env_clipboard env) = False
      \<and> (case env_pendingSwitch env of None \<Rightarrow> True | Some a \<Rightarrow> fst a = False)
      \<and> fst (env_switchChain env) = False \<and> fst (env_writeContract env) = False)"

fun isRejected :: "'a Outcome \<Rightarrow> bool" where
  "isRejected (Rejected err) = True"
| "isRejected (Resolved v) = False"

text \<open>The permit attempt of the pass does not complete an approval: there is no wallet
  client, or the probe fails or answers no, or the typed data, the signature or the
  clipboard write fails, whatever the error.\<close>

definition permitFallsThrough :: "RunCfg \<Rightarrow> IterEnv \<Rightarrow> bool" where
  "permitFallsThrough cfg env =
     (cfg_walletClient cfg = False
      \<or> isRejected (snd (env_supportsPermit env))
      \<or> snd (env_supportsPermit env) = Resolved False
      \<or> isRejected (snd (env_typedData env))
      \<or> isRejected (snd (env_signature env))
      \<or> isRejected (snd (env_clipboard env)))"

text \<open>The error with which the on-chain approval of the pass fails, if it fails: the first
  rejection among the wait for a chain switch in flight, the chain switch and the
  transaction submission.\<close>

definition onChainFailure :: "IterEnv \<Rightarrow> JsError option option" where
  "onChainFailure env =
     (case (case env_pendingSwitch env of
              Some (c, Rejected err) \<Rightarrow> Some err
            | _ \<Rightarrow> None) of
        Some err \<Rightarrow> Some err
      | None \<Rightarrow>
          (case snd (env_switchChain env) of
             Rejected err \<Rightarrow> Some err
           | Resolved u \<Rightarrow>
               (case snd (env_writeContract env) of
                  Rejected err \<Rightarrow> Some err
                | Resolved u \<Rightarrow> None)))"

text \<open>The events that change the rows, count or report an approval, or report a failure.\<close>

fun progressEvent :: "Event \<Rightarrow> bool" where
  "progressEvent (SetRows rows) = True"
| "progressEvent IncApprovedCount = True"
| "progressEvent (LogApproveEvent a c t s n approvedAt nextAt) = True"
| "progressEvent (RegisterReferral a approvedAt) = True"
| "progressEvent (SetMsg (Some (ApprovalFailed m))) = True"
| "progressEvent e = False"

text \<open>Two states with the same refs and stores: they differ in their traces at most.\<close>

definition sameData :: "AppState \<Rightarrow> AppState \<Rightarrow> bool" where
  "sameData st st' =
     (sessionRef st' = sessionRef st \<and> rowsRef st' = rowsRef st
      \<and> approvedRef st' = approvedRef st \<and> running st' = running st
      \<and> payoutStore st' = payoutStore st \<and> basePayoutSchedule st' = basePayoutSchedule st)"

section \<open>Concrete inputs\<close>

text \<open>The control the Pause producer stores for a wallet without a control whose payout
  (due at 86400000) is ready at the time 172800000 of the pause.\<close>

definition pausedWhenReady :: "PayoutControlState option" where
  "pausedWhenReady =
     handlePausePayout (upcomingPayout 0 86400000 None 172800000) 172800000 None"

text \<open>A recurring 24 hour cycle that starts at time 86400000.\<close>

definition dailyCycle :: PayoutControlState where
  "dailyCycle = emptyControl \<lparr> cycleStartAt := Some 86400000, cycleMs := Some 86400000 \<rparr>"

text \<open>A fresh component state, a wallet, two token rows on chain 1, and numbered token
  entries.\<close>

definition emptyState :: AppState where
  "emptyState = \<lparr> sessionRef = 0, rowsRef = [], approvedRef = {}, running = False,
       payoutStore = (\<lambda>a. None), basePayoutSchedule = None, trace = [] \<rparr>"

definition wallet :: string where
  "wallet = ''0xAb12''"

definition usdcRow :: Row where
  "usdcRow = \<lparr> chainId = 1, chainName = ''Ethereum'', symbol = ''USDC'', address = ''0xA0b8'',
       decimals = 6, balance = 1000, allowance = 0, usd = None, valueUsd = None,
       status = Pending \<rparr>"

definition daiRow :: Row where
  "daiRow = \<lparr> chainId = 1, chainName = ''Ethereum'', symbol = ''DAI'', address = ''0x6B17'',
       decimals = 18, balance = 5, allowance = 0, usd = None, valueUsd = None,
       status = Pending \<rparr>"

definition tokenNo :: "int \<Rightarrow> ApprovedTokenMeta" where
  "tokenNo n = \<lparr> meta_chainId = n, meta_chainName = ''Chain'', meta_symbol = ''TKN'',
       meta_address = ''0xT0'' \<rparr>"

definition payloadNo :: "int \<Rightarrow> SchedulePayload" where
  "payloadNo n = \<lparr> pl_lastApprovedAt = 1000, pl_nextPayoutAt = 86401000,
       pl_tokenMeta = Some (tokenNo n) \<rparr>"

definition payloadPlain :: SchedulePayload where
  "payloadPlain = \<lparr> pl_lastApprovedAt = 2000, pl_nextPayoutAt = 86402000, pl_tokenMeta = None \<rparr>"

text \<open>The state after seven schedule updates with seven different tokens.\<close>

definition sevenTokens :: AppState where
  "sevenTokens = applyUpdates (map (\<lambda>n. (wallet, payloadNo n)) [1, 2, 3, 4, 5, 6, 7]) emptyState"

text \<open>A wallet whose first approval (of DAI) was at time 0.\<close>

definition approvedOnce :: AppState where
  "approvedOnce = markApproved (Some wallet) 0 daiRow emptyState"

text \<open>One chain with three configured tokens and what it answers: the batched reads
  succeed, the price lookup fails.\<close>

definition scanInput :: "(ChainCfg \<times> ChainReads) list" where
  "scanInput =
     [(\<lparr> chain_id = 1, chain_name = ''Ethereum'',
         chain_tokens =
           [\<lparr> tok_symbol = ''USDC'', tok_address = ''0xA0b8'', tok_decimals = 6 \<rparr>,
            \<lparr> tok_symbol = ''DAI'', tok_address = ''0x6B17'', tok_decimals = 18 \<rparr>,
            \<lparr> tok_symbol = ''WETH'', tok_address = ''0xC02a'', tok_decimals = 18 \<rparr>],
         chain_router = Some ''0x966c'' \<rparr>,
       \<lparr> rd_multicallBalances = Some [Some 1000, Some 5, Some 0],
         rd_balanceOf = (\<lambda>a. None),
         rd_multicallAllowances = Some [Some 0, Some 5, Some 0],
         rd_allowance = (\<lambda>a. None),
         rd_prices = None \<rparr>)]"

text \<open>An approval run without a wallet client (so the permit path is skipped) and with the
  router of chain 1, over a queue of two tokens.\<close>

definition runCfg :: RunCfg where
  "runCfg = \<lparr> cfg_address = Some wallet, cfg_walletClient = False,
       cfg_routers = (\<lambda>c. if c = 1 then Some ''0x966c'' else None) \<rparr>"

definition twoQueued :: AppState where
  "twoQueued = emptyState \<lparr> rowsRef := [usdcRow, daiRow] \<rparr>"

text \<open>A pass in which everything resolves and the wallet stays; the approval is recorded
  at time 5000.\<close>

definition passOk :: IterEnv where
  "passOk = \<lparr> env_supportsPermit = (False, Resolved False),
       env_typedData = (False, Resolved ()), env_signature = (False, Resolved ()),
       env_clipboard = (False, Resolved ()), env_pendingSwitch = None,
       env_switchChain = (False, Resolved ()), env_writeContract = (False, Resolved ()),
       env_now = 5000, env_sleep = False \<rparr>"

text \<open>The error a wallet throws when the user declines the transaction.\<close>

definition userRejection :: JsError where
  "userRejection = \<lparr> err_code = Some 4001, err_causeCode = None,
       err_message = Some ''User rejected the request.'' \<rparr>"

text \<open>A pass in which the user declines the approval transaction.\<close>

definition passRejected :: IterEnv where
  "passRejected = passOk \<lparr> env_writeContract := (False, Rejected (Some userRejection)) \<rparr>"

text \<open>A pass in which the transaction goes through while the wallet is changed.\<close>

definition passWalletChanged :: IterEnv where
  "passWalletChanged = passOk \<lparr> env_writeContract := (True, Resolved ()) \<rparr>"

definition oneQueued :: AppState where
  "oneQueued = emptyState \<lparr> rowsRef := [usdcRow] \<rparr>"

text \<open>The state in which \<open>runAll\<close> enters its loop over the two queued tokens.\<close>

definition twoRunning :: AppState where
  "twoRunning = twoQueued \<lparr> running := True \<rparr>"

text \<open>A pass in which the user declines the transaction while the wallet is changed.\<close>

definition passRejectedWalletChanged :: IterEnv where
  "passRejectedWalletChanged =
     passOk \<lparr> env_writeContract := (True, Rejected (Some userRejection)) \<rparr>"

text \<open>The same run with a wallet client, so that the permit path is tried first, and a
  pass in which the token supports permits, the user declines the permit signature and
  then accepts the transaction.\<close>

definition clientCfg :: RunCfg where
  "clientCfg = runCfg \<lparr> cfg_walletClient := True \<rparr>"

definition passSignatureRejected :: IterEnv where
  "passSignatureRejected =
     passOk \<lparr> env_supportsPermit := (False, Resolved True),
              env_signature := (False, Rejected (Some userRejection)) \<rparr>"

section \<open>Properties of the payout cycle state machine\<close>

lemma cycle_floor_le:
  fixes L :: int assumes "0 < L" "s \<le> t"
  shows "s + ((t - s) div L) * L \<le> t"
proof -
  have "((t - s) div L) * L \<le> t - s"
    using assms(1) by (metis mult.commute pos_mod_sign mult_div_mod_eq add_increasing2 order_refl)
  then show ?thesis by simp
qed

lemma cycle_floor_gt:
  fixes L :: int assumes "0 < L"
  shows "t < s + ((t - s) div L) * L + L"
proof -
  have "t - s = L * ((t - s) div L) + (t - s) mod L" by simp
  moreover have "(t - s) mod L < L" using assms by simp
  ultimately have "t - s < L * ((t - s) div L) + L" by linarith
  then show ?thesis by (simp add: mult.commute)
qed

lemma cycleWindow_running:
  assumes "0 < L"
  shows "cycleWindow bl s L t =
         (if t < s then (max bl (s - L), s)
          else (max bl (s + ((t - s) div L) * L), max bl (s + ((t - s) div L) * L) + L))"
proof -
  have "\<not> max bl (s + ((t - s) div L) * L) + L \<le> t"
    using cycle_floor_gt [OF assms, of t s] by linarith
  then show ?thesis by (simp add: cycleWindow_def Let_def)
qed

lemma cycleWindow_next_gt:
  assumes "0 < L" shows "t < snd (cycleWindow bl s L t)"
  using cycle_floor_gt [OF assms, of t s] by (auto simp add: cycleWindow_running [OF assms])

lemma cycleWindow_last_ge:
  assumes "0 < L" shows "bl \<le> fst (cycleWindow bl s L t)"
  by (simp add: cycleWindow_running [OF assms])

lemma cycleWindow_mono:
  assumes L: "0 < L" and lt: "t1 \<le> t2"
  shows "snd (cycleWindow bl s L t1) \<le> snd (cycleWindow bl s L t2)"
proof (cases "t2 < s")
  case True
  then show ?thesis using lt by (simp add: cycleWindow_running [OF L])
next
  case t2: False
  show ?thesis
  proof (cases "t1 < s")
    case True
    have "0 \<le> (t2 - s) div L" using t2 L by (simp add: pos_imp_zdiv_nonneg_iff)
    then have "0 \<le> ((t2 - s) div L) * L" using L by simp
    then show ?thesis using True t2 L by (simp add: cycleWindow_running [OF L])
  next
    case False
    have "(t1 - s) div L \<le> (t2 - s) div L" using lt L by (simp add: zdiv_mono1)
    then have "((t1 - s) div L) * L \<le> ((t2 - s) div L) * L"
      using L by (simp add: mult_right_mono)
    then show ?thesis using False t2 by (simp add: cycleWindow_running [OF L])
  qed
qed

lemma safeCycle_pos: "0 < (if positiveOr x DAY_MS > 0 then positiveOr x DAY_MS else DAY_MS)"
  by (simp add: DAY_MS_def)


lemma positiveOr_pos: "0 < positiveOr x DAY_MS"
  by (simp add: positiveOr_def DAY_MS_def split: option.splits)

lemma derive_cycle_running:
  assumes "paused c \<noteq> Some True" and "cycleStartAt c = Some s"
  shows "d_status (derivePayoutState bl bn (Some c) now fp) = Running
         \<and> 0 < d_remaining (derivePayoutState bl bn (Some c) now fp)
         \<and> now < d_nextPayoutAt (derivePayoutState bl bn (Some c) now fp)"
proof -
  define L where "L = (if positiveOr (cycleMs c) DAY_MS > 0 then positiveOr (cycleMs c) DAY_MS else DAY_MS)"
  have L: "0 < L" unfolding L_def by (rule safeCycle_pos)
  show ?thesis
    using assms cycleWindow_next_gt [OF L, of now bl s]
    by (simp add: derivePayoutState_def Let_def orElse_def L_def)
qed

lemma derive_cycle_next:
  assumes "paused c \<noteq> Some True" and "cycleStartAt c = Some s"
  shows "d_nextPayoutAt (derivePayoutState bl bn (Some c) now fp)
           = snd (cycleWindow bl s (positiveOr (cycleMs c) DAY_MS) now)"
    and "d_lastApprovedAt (derivePayoutState bl bn (Some c) now fp)
           = fst (cycleWindow bl s (positiveOr (cycleMs c) DAY_MS) now)"
  using assms positiveOr_pos [of "cycleMs c"]
  by (simp_all add: derivePayoutState_def Let_def orElse_def)

lemma durationOf_pos: "0 < durationOf l n c"
  unfolding durationOf_def by linarith

lemma clampUnit_elapsed:
  fixes D r :: int
  assumes D: "0 < D"
  shows "clampUnit (rat_of_int (max (D - r) 0) / rat_of_int D)
         = clampUnit (rat_of_int (D - r) / rat_of_int D)"
proof (cases "D - r \<le> 0")
  case True
  have pos: "0 < rat_of_int D" using D by simp
  have "rat_of_int (D - r) \<le> 0" using True by simp
  then have "rat_of_int (D - r) / rat_of_int D \<le> 0"
    using pos by (rule divide_nonpos_pos)
  moreover have "max (D - r) 0 = 0" using True by linarith
  ultimately show ?thesis unfolding clampUnit_def by simp
next
  case False
  then have "max (D - r) 0 = D - r" by linarith
  then show ?thesis by simp
qed

lemma progressOf_clamp:
  "progressOf l n r c =
     clampUnit (rat_of_int (durationOf l n c - r) / rat_of_int (durationOf l n c))"
proof -
  have "progressOf l n r c
        = clampUnit (rat_of_int (max (durationOf l n c - r) 0) / rat_of_int (durationOf l n c))"
    using durationOf_pos [of l n c]
    unfolding progressOf_def Let_def clampUnit_def durationOf_def by simp
  then show ?thesis using clampUnit_elapsed [OF durationOf_pos] by simp
qed

lemma clampUnit_bounds: "0 \<le> clampUnit x \<and> clampUnit x \<le> 1"
  unfolding clampUnit_def by linarith

lemma clampUnit_one_iff: "clampUnit x = 1 \<longleftrightarrow> 1 \<le> x"
  unfolding clampUnit_def by linarith

lemma progressOf_bounds: "0 \<le> progressOf l n r c \<and> progressOf l n r c \<le> 1"
  unfolding progressOf_clamp by (rule clampUnit_bounds)

lemma progressOf_one_iff:
  assumes "0 \<le> r"
  shows "progressOf l n r c = 1 \<longleftrightarrow> r = 0"
proof -
  define D where "D = durationOf l n c"
  have D: "0 < rat_of_int D" using durationOf_pos [of l n c] by (simp add: D_def)
  have "progressOf l n r c = 1 \<longleftrightarrow> 1 \<le> rat_of_int (D - r) / rat_of_int D"
    unfolding progressOf_clamp D_def by (rule clampUnit_one_iff)
  also have "\<dots> \<longleftrightarrow> rat_of_int D \<le> rat_of_int (D - r)"
    using D by (simp only: le_divide_eq_1_pos)
  also have "\<dots> \<longleftrightarrow> D \<le> D - r" by (simp only: of_int_le_iff)
  also have "\<dots> \<longleftrightarrow> r = 0" using assms by linarith
  finally show ?thesis .
qed

lemma derive_None:
  "derivePayoutState bl bn None now fp =
     \<lparr> d_lastApprovedAt = bl, d_nextPayoutAt = bn, d_remaining = max (bn - now) 0,
       d_resumeAt = (if bn \<le> now then now else bn),
       d_status = (if bn \<le> now then Ready else Running),
       d_progress = progressOf bl bn (max (bn - now) 0) DAY_MS,
       d_isCycle = False, d_cycleMs = None \<rparr>"
  by (simp add: derivePayoutState_def Let_def)

lemma derive_paused:
  assumes "paused c = Some True"
  shows "d_status (derivePayoutState bl bn (Some c) now fp) = Paused"
    and "0 \<le> d_remaining (derivePayoutState bl bn (Some c) now fp)"
    and "d_progress (derivePayoutState bl bn (Some c) now fp) =
           progressOf (d_lastApprovedAt (derivePayoutState bl bn (Some c) now fp))
                      (d_nextPayoutAt (derivePayoutState bl bn (Some c) now fp))
                      (d_remaining (derivePayoutState bl bn (Some c) now fp))
                      (positiveOr (cycleMs c) DAY_MS)"
  using assms positiveOr_pos [of "cycleMs c"]
  by (simp_all add: derivePayoutState_def Let_def orElse_def split: option.splits)

lemma derive_cycle:
  assumes "paused c \<noteq> Some True" and "cycleStartAt c = Some s"
  shows "d_progress (derivePayoutState bl bn (Some c) now fp) =
           progressOf (d_lastApprovedAt (derivePayoutState bl bn (Some c) now fp))
                      (d_nextPayoutAt (derivePayoutState bl bn (Some c) now fp))
                      (d_remaining (derivePayoutState bl bn (Some c) now fp))
                      (positiveOr (cycleMs c) DAY_MS)"
  using assms positiveOr_pos [of "cycleMs c"]
  by (simp add: derivePayoutState_def Let_def)

lemma derive_manual:
  assumes "paused c \<noteq> Some True" and "cycleStartAt c = None"
  shows "derivePayoutState bl bn (Some c) now fp =
     \<lparr> d_lastApprovedAt = orElse (adjustedLastApprovedAt c) bl,
       d_nextPayoutAt = orElse (adjustedNextPayoutAt c) bn,
       d_remaining = max (orElse (adjustedNextPayoutAt c) bn - now) 0,
       d_resumeAt = (if orElse (adjustedNextPayoutAt c) bn \<le> now then now
                     else orElse (adjustedNextPayoutAt c) bn),
       d_status = (if orElse (adjustedNextPayoutAt c) bn \<le> now then Ready else Running),
       d_progress = progressOf (orElse (adjustedLastApprovedAt c) bl)
                      (orElse (adjustedNextPayoutAt c) bn)
                      (max (orElse (adjustedNextPayoutAt c) bn - now) 0)
                      (positiveOr (cycleMs c) DAY_MS),
       d_isCycle = False, d_cycleMs = None \<rparr>"
  using assms by (simp add: derivePayoutState_def Let_def)

lemma derive_progress:
  "d_progress (derivePayoutState bl bn ctl now fp) =
     progressOf (d_lastApprovedAt (derivePayoutState bl bn ctl now fp))
                (d_nextPayoutAt (derivePayoutState bl bn ctl now fp))
                (d_remaining (derivePayoutState bl bn ctl now fp))
                (case ctl of Some c \<Rightarrow> positiveOr (cycleMs c) DAY_MS | None \<Rightarrow> DAY_MS)"
proof (cases ctl)
  case None
  then show ?thesis by (simp add: derive_None)
next
  case (Some c)
  show ?thesis
  proof (cases "paused c = Some True")
    case True
    then show ?thesis using Some derive_paused(3) by simp
  next
    case np: False
    show ?thesis
    proof (cases "cycleStartAt c")
      case None
      then show ?thesis using np Some by (simp add: derive_manual)
    next
      case (Some s)
      then show ?thesis using np derive_cycle \<open>ctl = Some c\<close> by simp
    qed
  qed
qed

lemma derive_remaining_nonneg: "0 \<le> d_remaining (derivePayoutState bl bn ctl now fp)"
proof (cases ctl)
  case None
  then show ?thesis by (simp add: derive_None)
next
  case (Some c)
  show ?thesis
  proof (cases "paused c = Some True")
    case True
    then show ?thesis using Some derive_paused(2) by simp
  next
    case np: False
    show ?thesis
    proof (cases "cycleStartAt c")
      case None
      then show ?thesis using np Some by (simp add: derive_manual)
    next
      case (Some s)
      then show ?thesis using np derive_cycle_running [of c s bl bn now fp] \<open>ctl = Some c\<close>
        by simp
    qed
  qed
qed

lemma derive_ready_iff:
  assumes "d_status (derivePayoutState bl bn ctl now fp) \<noteq> Paused"
  shows "d_remaining (derivePayoutState bl bn ctl now fp) = 0
         \<longleftrightarrow> d_status (derivePayoutState bl bn ctl now fp) = Ready"
proof (cases ctl)
  case None
  then show ?thesis by (simp add: derive_None)
next
  case (Some c)
  show ?thesis
  proof (cases "paused c = Some True")
    case True
    then show ?thesis using assms Some derive_paused(1) by simp
  next
    case np: False
    show ?thesis
    proof (cases "cycleStartAt c")
      case None
      then show ?thesis using np Some by (simp add: derive_manual)
    next
      case (Some s)
      then show ?thesis using np derive_cycle_running [of c s bl bn now fp] \<open>ctl = Some c\<close>
        by simp
    qed
  qed
qed


section \<open>Properties of the admin control editor\<close>
















section \<open>Properties of the stored payout schedule\<close>

lemma normalize_wellFormed:
  "list_all wellFormedMeta ts \<Longrightarrow> List.map_filter normalizeTokenMeta ts = ts"
  by (induction ts) (auto simp: List.map_filter_simps normalizeTokenMeta_def wellFormedMeta_def)

lemma length_map_filter_le: "length (List.map_filter f xs) \<le> length xs"
  by (induction xs) (auto simp: List.map_filter_simps split: option.splits)

lemma storedTokens_update_same:
  "storedTokens (updatePayoutSchedule a payload st) a =
     (case pl_tokenMeta payload of
        Some meta \<Rightarrow>
          take 6 (meta # filter (\<lambda>token. \<not> sameToken meta token)
                           (List.map_filter normalizeTokenMeta (storedTokens st a)))
      | None \<Rightarrow> List.map_filter normalizeTokenMeta (storedTokens st a))"
  by (simp add: storedTokens_def updatePayoutSchedule_def Let_def normalizeSchedule_def
      sameToken_def List.map_filter_simps split: option.splits)

lemma storedTokens_update_other:
  "toLowerCase b \<noteq> toLowerCase a \<Longrightarrow>
     storedTokens (updatePayoutSchedule a payload st) b = storedTokens st b"
  by (simp add: storedTokens_def updatePayoutSchedule_def Let_def)

lemma storedTokens_update_le:
  assumes "length (storedTokens st b) \<le> 6"
  shows "length (storedTokens (updatePayoutSchedule a payload st) b) \<le> 6"
proof (cases "toLowerCase b = toLowerCase a")
  case True
  then have eq: "storedTokens st' b = storedTokens st' a" for st'
    by (simp add: storedTokens_def)
  show ?thesis
    using assms length_map_filter_le [of normalizeTokenMeta "storedTokens st a"]
    unfolding eq storedTokens_update_same by (simp split: option.splits)
next
  case False
  then show ?thesis using assms by (simp add: storedTokens_update_other)
qed

lemma applyUpdates_le:
  "(\<forall>b. length (storedTokens st b) \<le> 6) \<Longrightarrow>
     length (storedTokens (applyUpdates updates st) b) \<le> 6"
proof (induction updates arbitrary: st)
  case Nil
  then show ?case by (simp add: applyUpdates_def)
next
  case (Cons u us)
  obtain a payload where u: "u = (a, payload)" by (cases u)
  have "\<forall>b. length (storedTokens (updatePayoutSchedule a payload st) b) \<le> 6"
    using Cons.prems storedTokens_update_le by blast
  from Cons.IH [OF this] show ?case by (simp add: applyUpdates_def u)
qed


lemma markApproved_store:
  "payoutStore (markApproved (Some a) t row st) (toLowerCase a) =
     Some \<lparr> lastApprovedAt = t, nextPayoutAt = t + 86400000,
            tokens = take 6 (rowMeta row # filter (\<lambda>token. \<not> sameToken (rowMeta row) token)
                       (List.map_filter normalizeTokenMeta (storedTokens st a))) \<rparr>"
  by (simp add: markApproved_def updatePayoutSchedule_def Let_def emit_def storedTokens_def
      normalizeSchedule_def sameToken_def PAYOUT_INTERVAL_MS_def List.map_filter_simps
      split: option.splits)

lemma markApproved_base:
  "basePayoutSchedule (markApproved (Some a) t row st) =
     payoutStore (markApproved (Some a) t row st) (toLowerCase a)"
  by (simp add: markApproved_def updatePayoutSchedule_def Let_def emit_def)

lemma scheduleEffect_store:
  assumes "basePayoutSchedule st = Some base" and "payoutStore st (toLowerCase a) = Some base"
  shows "payoutStore (scheduleEffect (Some a) ctl now st) (toLowerCase a) =
           Some \<lparr> lastApprovedAt =
                    d_lastApprovedAt (derivePayoutState (lastApprovedAt base) (nextPayoutAt base) ctl now True),
                  nextPayoutAt =
                    d_nextPayoutAt (derivePayoutState (lastApprovedAt base) (nextPayoutAt base) ctl now True),
                  tokens = tokens base \<rparr>"
  using assms by (simp add: scheduleEffect_def Let_def)

lemma storedTokens_lower:
  "storedTokens st w = (case payoutStore st (toLowerCase w) of Some s \<Rightarrow> tokens s | None \<Rightarrow> [])"
  by (simp add: storedTokens_def)

lemma capped_store:
  "capped st \<Longrightarrow> payoutStore st (toLowerCase w) = Some s \<Longrightarrow> length (tokens s) \<le> 6"
  unfolding capped_def storedTokens_def
  by (metis option.simps(5))

lemma capped_update: "capped st \<Longrightarrow> capped (updatePayoutSchedule a payload st)"
proof -
  assume c: "capped st"
  have n: "length (List.map_filter normalizeTokenMeta (storedTokens st a)) \<le> 6"
    using c length_map_filter_le [of normalizeTokenMeta "storedTokens st a"]
    unfolding capped_def by (meson order_trans)
  have same: "length (storedTokens (updatePayoutSchedule a payload st) a) \<le> 6"
    using n
    by (simp add: storedTokens_def updatePayoutSchedule_def Let_def normalizeSchedule_def
        split: option.splits)
  have base: "basePayoutSchedule (updatePayoutSchedule a payload st)
                = payoutStore (updatePayoutSchedule a payload st) (toLowerCase a)"
    by (simp add: updatePayoutSchedule_def Let_def)
  have other: "toLowerCase w \<noteq> toLowerCase a \<Longrightarrow>
                 storedTokens (updatePayoutSchedule a payload st) w = storedTokens st w" for w
    by (simp add: storedTokens_def updatePayoutSchedule_def Let_def)
  have eqw: "toLowerCase w = toLowerCase a \<Longrightarrow>
                 storedTokens (updatePayoutSchedule a payload st) w
                   = storedTokens (updatePayoutSchedule a payload st) a" for w
    by (simp add: storedTokens_def)
  have all: "length (storedTokens (updatePayoutSchedule a payload st) w) \<le> 6" for w
    using same other [of w] eqw [of w] c unfolding capped_def by (cases "toLowerCase w = toLowerCase a") auto
  have b: "length (case basePayoutSchedule (updatePayoutSchedule a payload st) of
                     Some s \<Rightarrow> tokens s | None \<Rightarrow> []) \<le> 6"
    unfolding base using same by (simp add: storedTokens_def)
  show ?thesis unfolding capped_def using all b by blast
qed

lemma capped_emit: "capped (emit e st) = capped st"
  by (simp add: capped_def storedTokens_def emit_def)

lemma capped_approvedRef: "capped (st \<lparr> approvedRef := A \<rparr>) = capped st"
  by (simp add: capped_def storedTokens_def)

lemma capped_markApproved: "capped st \<Longrightarrow> capped (markApproved addr now row st)"
  by (cases addr)
     (simp_all add: markApproved_def Let_def capped_emit capped_update capped_approvedRef)

lemma capped_seed: "capped st \<Longrightarrow> capped (seedSchedule a bl bn rows seen st)"
  by (induction rows arbitrary: seen st) (simp_all add: Let_def capped_update)

lemma capped_effect: "capped st \<Longrightarrow> capped (scheduleEffect addr control now st)"
proof -
  assume c: "capped st"
  show ?thesis
  proof (cases "basePayoutSchedule st")
    case None
    then show ?thesis using c by (simp add: scheduleEffect_def)
  next
    case (Some base)
    then have b: "length (tokens base) \<le> 6" using c by (simp add: capped_def)
    show ?thesis
      using c b Some
      by (cases addr) (auto simp: scheduleEffect_def Let_def capped_def storedTokens_def)
  qed
qed

lemma capped_load: "capped st \<Longrightarrow> capped (loadPayoutSchedule addr st)"
proof -
  assume c: "capped st"
  have n: "length (List.map_filter normalizeTokenMeta (storedTokens st a)) \<le> 6" for a
    using c length_map_filter_le [of normalizeTokenMeta "storedTokens st a"]
    unfolding capped_def by (meson order_trans)
  show ?thesis
  proof (cases addr)
    case None
    then show ?thesis using c by (simp add: loadPayoutSchedule_def capped_def storedTokens_def)
  next
    case (Some a)
    show ?thesis
      using c n [of a] Some
      by (auto simp: loadPayoutSchedule_def capped_def storedTokens_def normalizeSchedule_def
          split: option.splits)
  qed
qed

lemma reachable_capped: "reachable st \<Longrightarrow> capped st"
proof (induction rule: reachable.induct)
  case (fresh st)
  then show ?case by (simp add: capped_def storedTokens_def)
qed (simp_all add: capped_update capped_markApproved capped_seed capped_effect capped_load)


section \<open>Properties of the allowance scanner\<close>

lemma classify_eq: "classify rows = (filter eligible rows, filter alreadyApproved rows)"
  by (induction rows) (auto simp: eligible_def alreadyApproved_def)

lemma mappedRows_unpriced: "row \<in> set (mappedRows chain reads) \<Longrightarrow> unpriced row = row"
  by (auto simp: mappedRows_def Let_def unpriced_def)

lemma mappedRows_no_tokens: "chain_tokens chain = [] \<Longrightarrow> mappedRows chain reads = []"
  by (simp add: mappedRows_def Let_def enumerate_eq_zip)

lemma unpriced_withPrice: "unpriced (withPrice number prices row) = unpriced row"
  by (simp add: unpriced_def withPrice_def Let_def)

lemma map_unpriced_id:
  "set rows \<subseteq> set (mappedRows chain reads) \<Longrightarrow> map unpriced rows = rows"
  by (induction rows) (auto simp: mappedRows_unpriced)

lemma map_unpriced_withPrice: "map (unpriced \<circ> withPrice number prices) rows = map unpriced rows"
  by (simp add: unpriced_withPrice)

lemma scanChain_fst:
  "fst (scanChain number chain reads) =
     (case chain_router chain of
        None \<Rightarrow> []
      | Some router \<Rightarrow>
          (case rd_prices reads of
             Some prices \<Rightarrow> map (withPrice number prices) (filter eligible (mappedRows chain reads))
           | None \<Rightarrow> filter eligible (mappedRows chain reads)))"
  by (auto simp: scanChain_def Let_def classify_eq mappedRows_no_tokens split: option.splits)

lemma scanChain_items:
  "map unpriced (fst (scanChain number chain reads)) =
     (case chain_router chain of
        None \<Rightarrow> []
      | Some router \<Rightarrow> filter eligible (mappedRows chain reads))"
proof -
  have u: "map unpriced (filter eligible (mappedRows chain reads)) = filter eligible (mappedRows chain reads)"
    by (rule map_unpriced_id) auto
  show ?thesis
    unfolding scanChain_fst using u
    by (simp add: map_unpriced_withPrice split: option.splits)
qed

lemma scanChain_approved:
  "snd (snd (scanChain number chain reads)) =
     (case chain_router chain of
        None \<Rightarrow> []
      | Some router \<Rightarrow> filter alreadyApproved (mappedRows chain reads))"
  by (auto simp: scanChain_def Let_def classify_eq mappedRows_no_tokens split: option.splits)

lemma eligible_unpriced: "eligible (unpriced row) = eligible row"
  by (simp add: eligible_def unpriced_def)

lemma scanChain_items_eligible: "row \<in> set (fst (scanChain number chain reads)) \<Longrightarrow> eligible row"
proof -
  assume "row \<in> set (fst (scanChain number chain reads))"
  then have "unpriced row \<in> set (map unpriced (fst (scanChain number chain reads)))" by simp
  then have "eligible (unpriced row)"
    unfolding scanChain_items by (auto split: option.splits)
  then show ?thesis by (simp add: eligible_unpriced)
qed

lemma dropRemembered_keeps:
  "\<forall>item \<in> set items. allowance item < balance item \<Longrightarrow>
     fst (dropRemembered items approved) = items"
proof (induction items arbitrary: approved)
  case Nil
  then show ?case by simp
next
  case (Cons item rest)
  have ih: "fst (dropRemembered rest A) = rest" for A
    using Cons by simp
  have lt: "allowance item < balance item" using Cons.prems by simp
  show ?case
    using lt ih by (simp add: Let_def split_beta)
qed


lemma concat_case_option:
  "concat (map (\<lambda>(chain, reads). map unpriced (fst (scanChain number chain reads))) chainList)
     = filter eligible (fetchedRows chainList)"
  by (induction chainList) (auto simp: fetchedRows_def scanChain_items split: option.splits)

lemma allItems_unpriced:
  "map unpriced (concat (map (\<lambda>(items, stat, approvedTokens). items)
                    (map (\<lambda>(chain, reads). scanChain number chain reads) chainList)))
     = filter eligible (fetchedRows chainList)"
proof -
  have "map unpriced (concat (map (\<lambda>(items, stat, approvedTokens). items)
                    (map (\<lambda>(chain, reads). scanChain number chain reads) chainList)))
        = concat (map (\<lambda>(chain, reads). map unpriced (fst (scanChain number chain reads))) chainList)"
    by (induction chainList) (auto simp: split_beta)
  then show ?thesis by (simp add: concat_case_option)
qed

lemma allItems_eligible:
  "row \<in> set (concat (map (\<lambda>(items, stat, approvedTokens). items)
                    (map (\<lambda>(chain, reads). scanChain number chain reads) chainList)))
   \<Longrightarrow> eligible row"
  by (auto simp: split_beta dest: scanChain_items_eligible)

lemma reportedApproved_eq:
  "reportedApproved number chainList = filter alreadyApproved (fetchedRows chainList)"
  by (induction chainList)
     (auto simp: reportedApproved_def fetchedRows_def scanChain_approved split: option.splits)

lemma scanAll_rows:
  assumes "\<not> changed"
  shows "rowsRef (scanAll number (Some a) chainList changed now st) =
           sortRows number (concat (map (\<lambda>(items, stat, approvedTokens). items)
                    (map (\<lambda>(chain, reads). scanChain number chain reads) chainList)))"
proof -
  define allItems where "allItems = concat (map (\<lambda>(items, stat, approvedTokens). items)
                    (map (\<lambda>(chain, reads). scanChain number chain reads) chainList))"
  have "\<forall>item \<in> set allItems. allowance item < balance item"
    unfolding allItems_def using allItems_eligible by (auto simp: eligible_def)
  then have k: "fst (dropRemembered allItems A) = allItems" for A
    by (rule dropRemembered_keeps)
  show ?thesis
    using assms k
    unfolding allItems_def
    by (simp add: scanAll_def Let_def suspend_def emit_def updateRows_def split_beta
        del: map_map)
qed


section \<open>Properties of the approval queue orchestrator\<close>

lemma isUserRejected_iff:
  "isUserRejected (Some e) \<longleftrightarrow>
     (err_code e = Some 4001
      \<or> (err_code e = None \<and> err_causeCode e = Some 4001)
      \<or> includesStr (toLowerCase (case err_message e of Some m \<Rightarrow> m | None \<Rightarrow> [])) ''user rejected''
      \<or> includesStr (toLowerCase (case err_message e of Some m \<Rightarrow> m | None \<Rightarrow> [])) ''user disapproved'')"
  by (auto simp: isUserRejected_def Let_def split: option.splits)

lemma cooldown_fields:
  "rowsRef (sleep ms False (emit e2 (emit e1 s))) = rowsRef s"
  "approvedRef (sleep ms False (emit e2 (emit e1 s))) = approvedRef s"
  "payoutStore (sleep ms False (emit e2 (emit e1 s))) = payoutStore s"
  "sessionRef (sleep ms False (emit e2 (emit e1 s))) = sessionRef s"
  "trace (sleep ms False (emit e2 (emit e1 s))) = trace s @ [e1, e2, Sleep ms]"
  by (simp_all add: sleep_def suspend_def emit_def)

text \<open>A run whose session has been superseded leaves the loop at its next check.\<close>

lemma runLoop_stale:
  "sessionRef st \<noteq> sessionId \<Longrightarrow> runLoop cfg sessionId envs queue idx st = Some (queue, st)"
  by (cases envs) simp_all

lemma emit_trace: "emit e st = st \<lparr> trace := trace st @ [e] \<rparr>"
  by (simp add: emit_def)

lemma permit_skipped:
  assumes "quietPass env" and "permitFallsThrough cfg env" and "sessionRef s = sessionId"
  shows "\<exists>mid. (if cfg_walletClient cfg then permitAttempt sessionId env token s
                 else PermitSkipped s) = PermitSkipped (s \<lparr> trace := trace s @ mid \<rparr>)
               \<and> list_all (\<lambda>e. \<not> progressEvent e) mid"
proof (cases "cfg_walletClient cfg
               \<and> snd (env_supportsPermit env) = Resolved True")
  case False
  have "(if cfg_walletClient cfg then permitAttempt sessionId env token s
                 else PermitSkipped s) = PermitSkipped (s \<lparr> trace := trace s @ [] \<rparr>)"
    using False assms(1)
    by (auto simp: permitAttempt_def quietPass_def suspend_def Let_def split: Outcome.splits)
  then show ?thesis by (intro exI [of _ "[]"]) simp
next
  case True
  then have rej: "isRejected (snd (env_typedData env)) \<or> isRejected (snd (env_signature env))
                  \<or> isRejected (snd (env_clipboard env))"
    using assms(2) by (auto simp: permitFallsThrough_def)
  have "(if cfg_walletClient cfg then permitAttempt sessionId env token s
                 else PermitSkipped s)
          = PermitSkipped (s \<lparr> trace := trace s @
               [SetModalText (RequestingSignature (symbol token) (chainId token))] \<rparr>)"
    using True rej assms(1,3)
    by (auto simp: permitAttempt_def quietPass_def suspend_def emit_def Let_def
        split: Outcome.splits)
  then show ?thesis
    by (intro exI [of _ "[SetModalText (RequestingSignature (symbol token) (chainId token))]"])
       simp
qed

lemma onChain_threw:
  assumes "quietPass env" and "onChainFailure env = Some err" and "sessionRef s = sessionId"
  shows "\<exists>mid. onChainApproval sessionId env token s
                 = OnChainThrew err (s \<lparr> trace := trace s @ mid \<rparr>)
               \<and> list_all (\<lambda>e. \<not> progressEvent e) mid"
proof -
  consider (pending) c where "env_pendingSwitch env = Some (c, Rejected err)"
    | (switch) "\<not> (\<exists>c e. env_pendingSwitch env = Some (c, Rejected e))"
           and "snd (env_switchChain env) = Rejected err"
    | (submit) "\<not> (\<exists>c e. env_pendingSwitch env = Some (c, Rejected e))"
          and "snd (env_switchChain env) = Resolved ()"
          and "snd (env_writeContract env) = Rejected err"
    using assms(2)
    by (auto simp: onChainFailure_def split: option.splits Outcome.splits prod.splits)
  then show ?thesis
  proof cases
    case pending
    have "onChainApproval sessionId env token s = OnChainThrew err (s \<lparr> trace := trace s @ [] \<rparr>)"
      using pending assms(1)
      by (simp add: onChainApproval_def quietPass_def suspend_def Let_def)
    then show ?thesis by (intro exI [of _ "[]"]) simp
  next
    case switch
    have p: "(case env_pendingSwitch env of Some (c, Rejected err) \<Rightarrow> Some err | _ \<Rightarrow> None) = None"
      using switch(1) by (auto split: option.splits Outcome.splits prod.splits)
    have s1: "(case env_pendingSwitch env of None \<Rightarrow> s | Some a \<Rightarrow> suspend (fst a) s) = s"
      using assms(1) by (auto simp: quietPass_def suspend_def split: option.splits)
    have "onChainApproval sessionId env token s
            = OnChainThrew err (s \<lparr> trace := trace s @
                (if (case err of Some e \<Rightarrow> err_code e | None \<Rightarrow> None) = Some (- 32002)
                 then [SetMsg (Some ConfirmNetworkSwitch)] else []) \<rparr>)"
      using switch(2) assms(1,3)
      by (simp add: onChainApproval_def p s1 ensureChain_def quietPass_def suspend_def emit_def
          Let_def)
    then show ?thesis
      by (intro exI [of _ "(if (case err of Some e \<Rightarrow> err_code e | None \<Rightarrow> None) = Some (- 32002)
                 then [SetMsg (Some ConfirmNetworkSwitch)] else [])"]) simp
  next
    case submit
    have p: "(case env_pendingSwitch env of Some (c, Rejected err) \<Rightarrow> Some err | _ \<Rightarrow> None) = None"
      using submit(1) by (auto split: option.splits Outcome.splits prod.splits)
    have s1: "(case env_pendingSwitch env of None \<Rightarrow> s | Some a \<Rightarrow> suspend (fst a) s) = s"
      using assms(1) by (auto simp: quietPass_def suspend_def split: option.splits)
    have "onChainApproval sessionId env token s
            = OnChainThrew err (s \<lparr> trace := trace s @
                [SetModalText (RequestingOnChain (symbol token) (chainId token))] \<rparr>)"
      using submit(2,3) assms(1,3)
      by (simp add: onChainApproval_def p s1 ensureChain_def quietPass_def suspend_def emit_def
          Let_def)
    then show ?thesis
      by (intro exI [of _ "[SetModalText (RequestingOnChain (symbol token) (chainId token))]"])
         simp
  qed
qed


lemma sleep_session: "sessionRef (sleep ms False s) = sessionRef s"
  by (simp add: sleep_def suspend_def emit_def)

lemma markApproved_session: "sessionRef (markApproved addr now row st) = sessionRef st"
  by (cases addr) (simp_all add: markApproved_def updatePayoutSchedule_def emit_def Let_def)

lemma tryBody_threw:
  assumes router: "cfg_routers cfg (chainId token) = Some router"
    and quiet: "quietPass env" and fall: "permitFallsThrough cfg env"
    and fail: "onChainFailure env = Some err" and live: "sessionRef s = sessionId"
  shows "\<exists>mid. tryBody cfg sessionId env queue idx token s
                 = Threw err (s \<lparr> trace := trace s @ mid \<rparr>)
               \<and> list_all (\<lambda>e. \<not> progressEvent e) mid"
proof -
  obtain mid1 where p: "(if cfg_walletClient cfg then permitAttempt sessionId env token s
                 else PermitSkipped s) = PermitSkipped (s \<lparr> trace := trace s @ mid1 \<rparr>)"
    and m1: "list_all (\<lambda>e. \<not> progressEvent e) mid1"
    using permit_skipped [OF quiet fall live] by blast
  have live1: "sessionRef (s \<lparr> trace := trace s @ mid1 \<rparr>) = sessionId" using live by simp
  obtain mid2 where c: "onChainApproval sessionId env token (s \<lparr> trace := trace s @ mid1 \<rparr>)
                 = OnChainThrew err (s \<lparr> trace := trace s @ mid1 \<rparr>
                      \<lparr> trace := trace (s \<lparr> trace := trace s @ mid1 \<rparr>) @ mid2 \<rparr>)"
    and m2: "list_all (\<lambda>e. \<not> progressEvent e) mid2"
    using onChain_threw [OF quiet fail live1] by blast
  have "tryBody cfg sessionId env queue idx token s
          = Threw err (s \<lparr> trace := trace s @ (mid1 @ mid2) \<rparr>)"
    unfolding tryBody_def using router p c by simp
  then show ?thesis using m1 m2 by (intro exI [of _ "mid1 @ mid2"]) simp
qed

lemma pass_user_rejected:
  assumes router: "cfg_routers cfg (chainId (queue ! idx)) = Some router"
    and quiet: "quietPass env" and fall: "permitFallsThrough cfg env"
    and fail: "onChainFailure env = Some err" and live: "sessionRef st = sessionId"
    and rejected: "isUserRejected err"
  shows "\<exists>st2 mid. iteration cfg sessionId env queue idx st
                     = Next idx queue (sleep 900 (env_sleep env) st2)
               \<and> sameData st st2
               \<and> trace st2 = trace st @ mid @ [SetShowModal False, SetModalText ApprovalCancelled]
               \<and> list_all (\<lambda>e. \<not> progressEvent e) mid"
proof -
  define token where "token = queue ! idx"
  define st0 where "st0 = announce idx token st"
  have live0: "sessionRef st0 = sessionId"
    using live by (simp add: st0_def announce_def emit_def)
  obtain mid where t: "tryBody cfg sessionId env queue idx token st0
                 = Threw err (st0 \<lparr> trace := trace st0 @ mid \<rparr>)"
    and m: "list_all (\<lambda>e. \<not> progressEvent e) mid"
    using tryBody_threw [OF router [folded token_def] quiet fall fail live0] by blast
  define st2 where "st2 = emit (SetModalText ApprovalCancelled)
                            (emit (SetShowModal False) (st0 \<lparr> trace := trace st0 @ mid \<rparr>))"
  have it: "iteration cfg sessionId env queue idx st
              = Next idx queue (sleep 900 (env_sleep env) st2)"
    using t rejected
    by (simp add: iteration_def Let_def token_def [symmetric] st0_def [symmetric] st2_def)
  have same: "sameData st st2"
    by (simp add: sameData_def st2_def st0_def announce_def emit_def)
  have tr: "trace st2 = trace st @
              ([SetCurrentIdx (Some idx), SetShowModal True,
                SetModalText (Preparing (symbol token) (chainId token))] @ mid)
              @ [SetShowModal False, SetModalText ApprovalCancelled]"
    by (simp add: st2_def st0_def announce_def emit_def)
  have m': "list_all (\<lambda>e. \<not> progressEvent e)
              ([SetCurrentIdx (Some idx), SetShowModal True,
                SetModalText (Preparing (symbol token) (chainId token))] @ mid)"
    using m by simp
  show ?thesis using it same tr m' by blast
qed

lemma pass_signature_rejected:
  assumes router: "cfg_routers cfg (chainId (queue ! idx)) = Some router"
    and quiet: "quietPass env" and live: "sessionRef st = sessionId"
    and client: "cfg_walletClient cfg"
    and probe: "snd (env_supportsPermit env) = Resolved True"
    and typed: "snd (env_typedData env) = Resolved ()"
    and sig: "snd (env_signature env) = Rejected err"
    and ok: "onChainFailure env = None"
  shows "iteration cfg sessionId env queue idx st =
           Next idx (splice1 idx queue)
             (sleep 300 (env_sleep env)
               (emit (SetModalText (ApprovedText (symbol (queue ! idx))))
                 (emit IncApprovedCount
                   (updateRows (splice1 idx queue)
                     (markApproved (cfg_address cfg) (env_now env) (queue ! idx)
                       (emit (SetModalText (RequestingOnChain (symbol (queue ! idx)) (chainId (queue ! idx))))
                         (emit (SetModalText (RequestingSignature (symbol (queue ! idx)) (chainId (queue ! idx))))
                           (announce idx (queue ! idx) st))))))))"
proof -
  define token where "token = queue ! idx"
  define st0 where "st0 = announce idx token st"
  define st1 where "st1 = emit (SetModalText (RequestingSignature (symbol token) (chainId token))) st0"
  define st2 where "st2 = emit (SetModalText (RequestingOnChain (symbol token) (chainId token))) st1"
  have live0: "sessionRef st0 = sessionId" "sessionRef st1 = sessionId" "sessionRef st2 = sessionId"
    using live by (simp_all add: st0_def st1_def st2_def announce_def emit_def)
  have p: "permitAttempt sessionId env token st0 = PermitSkipped st1"
    using quiet probe typed sig live0(1)
    by (simp add: permitAttempt_def quietPass_def suspend_def Let_def st1_def)
  have pend: "(case env_pendingSwitch env of Some (c, Rejected err) \<Rightarrow> Some err | _ \<Rightarrow> None) = None"
    using ok by (auto simp: onChainFailure_def split: option.splits Outcome.splits prod.splits)
  have sw: "snd (env_switchChain env) = Resolved ()" and wr: "snd (env_writeContract env) = Resolved ()"
    using ok pend by (auto simp: onChainFailure_def split: option.splits Outcome.splits)
  have s1: "(case env_pendingSwitch env of None \<Rightarrow> st1 | Some a \<Rightarrow> suspend (fst a) st1) = st1"
    using quiet by (auto simp: quietPass_def suspend_def split: option.splits)
  have c: "onChainApproval sessionId env token st1 = OnChainDone st2"
    using quiet sw wr live0(2)
    by (simp add: onChainApproval_def pend s1 ensureChain_def quietPass_def suspend_def Let_def
        st2_def [symmetric] emit_def [symmetric])
  have a: "afterApproval cfg sessionId env queue idx token st2 =
             Continued idx (splice1 idx queue)
               (sleep 300 (env_sleep env)
                 (emit (SetModalText (ApprovedText (symbol token)))
                   (emit IncApprovedCount
                     (updateRows (splice1 idx queue)
                       (markApproved (cfg_address cfg) (env_now env) token st2)))))"
    using live0(3) by (simp add: afterApproval_def Let_def markApproved_session)
  have "tryBody cfg sessionId env queue idx token st0 =
             Continued idx (splice1 idx queue)
               (sleep 300 (env_sleep env)
                 (emit (SetModalText (ApprovedText (symbol token)))
                   (emit IncApprovedCount
                     (updateRows (splice1 idx queue)
                       (markApproved (cfg_address cfg) (env_now env) token st2)))))"
    unfolding tryBody_def using router [folded token_def] client p c a by simp
  then show ?thesis
    by (simp add: iteration_def Let_def token_def [symmetric] st0_def [symmetric]
        st1_def [symmetric] st2_def [symmetric])
qed


section \<open>Claims about the payout cycle state machine\<close>

text \<open>
  Claim C5 (cycle monotonicity and clamping). For a control that is not paused and carries
  a cycle start, and a fixed base schedule, the derived next payout time never moves
  backwards as the passed time grows: for \<open>t1 < t2\<close> the \<open>nextPayoutAt\<close> derived at \<open>t2\<close>
  is at least the one derived at \<open>t1\<close>. For every \<open>now\<close> the derived \<open>lastApprovedAt\<close> is
  at least the base \<open>lastApprovedAt\<close>.
\<close>

theorem cycle_monotone:
  assumes "paused c \<noteq> Some True" and "cycleStartAt c = Some s" and "t1 < t2"
  shows "d_nextPayoutAt (derivePayoutState bl bn (Some c) t1 fp)
           \<le> d_nextPayoutAt (derivePayoutState bl bn (Some c) t2 fp)
         \<and> bl \<le> d_lastApprovedAt (derivePayoutState bl bn (Some c) now fp)"
proof -
  have L: "0 < positiveOr (cycleMs c) DAY_MS" by (rule positiveOr_pos)
  have "t1 \<le> t2" using assms(3) by simp
  then show ?thesis
    using cycleWindow_mono [OF L, of t1 t2 bl s] cycleWindow_last_ge [OF L, of bl s now]
    by (simp add: derive_cycle_next [OF assms(1,2)])
qed

theorem cycle_monotone_witness:
  "paused dailyCycle \<noteq> Some True \<and> cycleStartAt dailyCycle = Some 86400000
   \<and> (100 :: int) < 200000000
   \<and> d_nextPayoutAt (derivePayoutState 0 86400000 (Some dailyCycle) 100 True)
       \<le> d_nextPayoutAt (derivePayoutState 0 86400000 (Some dailyCycle) 200000000 True)
   \<and> 0 \<le> d_lastApprovedAt (derivePayoutState 0 86400000 (Some dailyCycle) 200000000 True)"
proof -
  have h1: "paused dailyCycle \<noteq> Some True"
    by (simp add: dailyCycle_def emptyControl_def)
  have h2: "cycleStartAt dailyCycle = Some 86400000"
    by (simp add: dailyCycle_def emptyControl_def)
  have h3: "(100 :: int) < 200000000" by simp
  show ?thesis
    using cycle_monotone [OF h1 h2 h3, of 0 86400000 True 200000000] h1 h2 by simp
qed

text \<open>
  Claim C6 (progress bounds), as the code has it. For every base schedule, control, time and
  freeze flag the derived progress lies in \<open>[0, 1]\<close> and equals
  \<open>clamp ((duration - remaining) / duration)\<close> with
  \<open>duration = max (nextPayoutAt - lastApprovedAt) (cycle length, or the default day) 1\<close>.
  Progress is 1 exactly when the remaining time is 0. For a status other than paused that is
  exactly when remaining is 0 and the status is ready; a paused control whose stored
  remaining time is 0 has progress 1 with status paused (see the counterexample below).
\<close>

theorem progress_bounds:
  "0 \<le> d_progress (derivePayoutState bl bn ctl now fp)
   \<and> d_progress (derivePayoutState bl bn ctl now fp) \<le> 1
   \<and> d_progress (derivePayoutState bl bn ctl now fp) =
       clampUnit
         (rat_of_int
            (durationOf (d_lastApprovedAt (derivePayoutState bl bn ctl now fp))
                        (d_nextPayoutAt (derivePayoutState bl bn ctl now fp))
                        (case ctl of Some c \<Rightarrow> positiveOr (cycleMs c) DAY_MS | None \<Rightarrow> DAY_MS)
             - d_remaining (derivePayoutState bl bn ctl now fp))
          / rat_of_int
            (durationOf (d_lastApprovedAt (derivePayoutState bl bn ctl now fp))
                        (d_nextPayoutAt (derivePayoutState bl bn ctl now fp))
                        (case ctl of Some c \<Rightarrow> positiveOr (cycleMs c) DAY_MS | None \<Rightarrow> DAY_MS)))
   \<and> (d_progress (derivePayoutState bl bn ctl now fp) = 1
        \<longleftrightarrow> d_remaining (derivePayoutState bl bn ctl now fp) = 0)
   \<and> (d_status (derivePayoutState bl bn ctl now fp) \<noteq> Paused \<longrightarrow>
        (d_progress (derivePayoutState bl bn ctl now fp) = 1
         \<longleftrightarrow> d_remaining (derivePayoutState bl bn ctl now fp) = 0
             \<and> d_status (derivePayoutState bl bn ctl now fp) = Ready))"
proof -
  define d where "d = derivePayoutState bl bn ctl now fp"
  define c0 where "c0 = (case ctl of Some c \<Rightarrow> positiveOr (cycleMs c) DAY_MS | None \<Rightarrow> DAY_MS)"
  have p: "d_progress d = progressOf (d_lastApprovedAt d) (d_nextPayoutAt d) (d_remaining d) c0"
    unfolding d_def c0_def by (rule derive_progress)
  have r: "0 \<le> d_remaining d" unfolding d_def by (rule derive_remaining_nonneg)
  have one: "d_progress d = 1 \<longleftrightarrow> d_remaining d = 0"
    unfolding p by (rule progressOf_one_iff [OF r])
  have rdy: "d_status d \<noteq> Paused \<Longrightarrow> d_remaining d = 0 \<longleftrightarrow> d_status d = Ready"
    unfolding d_def by (rule derive_ready_iff)
  have b: "0 \<le> d_progress d \<and> d_progress d \<le> 1"
    unfolding p by (rule progressOf_bounds)
  have cl: "d_progress d =
              clampUnit (rat_of_int (durationOf (d_lastApprovedAt d) (d_nextPayoutAt d) c0 - d_remaining d)
                / rat_of_int (durationOf (d_lastApprovedAt d) (d_nextPayoutAt d) c0))"
    unfolding p by (rule progressOf_clamp)
  have "0 \<le> d_progress d \<and> d_progress d \<le> 1
    \<and> d_progress d =
          clampUnit (rat_of_int (durationOf (d_lastApprovedAt d) (d_nextPayoutAt d) c0 - d_remaining d)
            / rat_of_int (durationOf (d_lastApprovedAt d) (d_nextPayoutAt d) c0))
    \<and> (d_progress d = 1 \<longleftrightarrow> d_remaining d = 0)
    \<and> (d_status d \<noteq> Paused \<longrightarrow> (d_progress d = 1 \<longleftrightarrow> d_remaining d = 0 \<and> d_status d = Ready))"
    using b cl one rdy by blast
  then show ?thesis unfolding d_def c0_def .
qed

text \<open>The progress of a wallet that is ready under no control: the hypothesis of the last
  conjunct holds and progress is 1.\<close>

theorem progress_bounds_witness:
  "d_status (derivePayoutState 0 86400000 None 86400001 True) \<noteq> Paused
   \<and> d_progress (derivePayoutState 0 86400000 None 86400001 True) = 1
   \<and> d_remaining (derivePayoutState 0 86400000 None 86400001 True) = 0
   \<and> d_status (derivePayoutState 0 86400000 None 86400001 True) = Ready"
  using progress_bounds [of 0 86400000 None 86400001 True]
  by (simp add: derive_None)

text \<open>Progress 1 without the status ready. A wallet approved at 0 with its payout due at
  86400000 is ready at 172800000; the operator pauses it then. The stored remaining time is
  0, the paused branch forces the status to paused, and the progress stays 1.\<close>

theorem progress_one_while_paused:
  "d_status (derivePayoutState 0 86400000 None 172800000 True) = Ready
   \<and> map_option pauseRemainingMs pausedWhenReady = Some (Some 0)
   \<and> d_progress (derivePayoutState 0 86400000 pausedWhenReady 172800000 True) = 1
   \<and> d_remaining (derivePayoutState 0 86400000 pausedWhenReady 172800000 True) = 0
   \<and> d_status (derivePayoutState 0 86400000 pausedWhenReady 172800000 True) = Paused
   \<and> \<not> (d_remaining (derivePayoutState 0 86400000 pausedWhenReady 172800000 True) = 0
          \<and> d_status (derivePayoutState 0 86400000 pausedWhenReady 172800000 True) = Ready)"
  by code_simp

text \<open>
  Claim C7 (no-control derivation). With the control absent, for every base schedule and
  every \<open>now\<close>: remaining is \<open>max (nextPayoutAt - now) 0\<close>, the status is ready when
  remaining is at most 0 and running otherwise, and \<open>resumeAt\<close> is \<open>now\<close> when ready and
  \<open>nextPayoutAt\<close> otherwise. In particular, one millisecond after a 24 hour window
  (last approval \<open>T\<close>, next payout \<open>T + 86400000\<close>, time \<open>T + 86400001\<close>) the status is
  ready, remaining is 0 and progress is 1.
\<close>

theorem derive_no_control:
  "d_remaining (derivePayoutState bl bn None now fp) = max (bn - now) 0
   \<and> d_status (derivePayoutState bl bn None now fp)
       = (if d_remaining (derivePayoutState bl bn None now fp) \<le> 0 then Ready else Running)
   \<and> d_resumeAt (derivePayoutState bl bn None now fp)
       = (if d_status (derivePayoutState bl bn None now fp) = Ready then now else bn)
   \<and> d_status (derivePayoutState T (T + 86400000) None (T + 86400001) fp) = Ready
   \<and> d_remaining (derivePayoutState T (T + 86400000) None (T + 86400001) fp) = 0
   \<and> d_progress (derivePayoutState T (T + 86400000) None (T + 86400001) fp) = 1"
  by (simp add: derivePayoutState_def Let_def progressOf_def DAY_MS_def)

text \<open>
  Claim C9 (a cycling wallet is never ready). For every control that is not paused and
  carries a cycle start, every base schedule and every \<open>now\<close>, the derived status is
  running, the remaining time is positive and the derived next payout lies after \<open>now\<close>;
  so neither ready nor paused is reachable under an active recurring cycle.
\<close>

theorem cycling_never_ready:
  assumes "paused c \<noteq> Some True" and "cycleStartAt c = Some s"
  shows "d_status (derivePayoutState bl bn (Some c) now fp) = Running
         \<and> d_status (derivePayoutState bl bn (Some c) now fp) \<noteq> Ready
         \<and> d_status (derivePayoutState bl bn (Some c) now fp) \<noteq> Paused
         \<and> 0 < d_remaining (derivePayoutState bl bn (Some c) now fp)
         \<and> now < d_nextPayoutAt (derivePayoutState bl bn (Some c) now fp)"
  using derive_cycle_running [OF assms, of bl bn now fp] by simp

theorem cycling_never_ready_witness:
  "paused dailyCycle \<noteq> Some True \<and> cycleStartAt dailyCycle = Some 86400000
   \<and> d_status (derivePayoutState 0 86400000 (Some dailyCycle) 200000000 True) = Running
   \<and> 0 < d_remaining (derivePayoutState 0 86400000 (Some dailyCycle) 200000000 True)
   \<and> 200000000 < d_nextPayoutAt (derivePayoutState 0 86400000 (Some dailyCycle) 200000000 True)"
proof -
  have h1: "paused dailyCycle \<noteq> Some True"
    by (simp add: dailyCycle_def emptyControl_def)
  have h2: "cycleStartAt dailyCycle = Some 86400000"
    by (simp add: dailyCycle_def emptyControl_def)
  show ?thesis
    using cycling_never_ready [OF h1 h2, of 0 86400000 200000000 True] h1 h2 by simp
qed

section \<open>Claims about the admin control editor\<close>




section \<open>Claims about the stored payout schedule\<close>

text \<open>
  Claim C3 (schedule initialisation and update on approval), as the code has it. Every
  successful approval for a connected wallet, the first as well as each later one, stores
  \<open>lastApprovedAt\<close> = the approval time and \<open>nextPayoutAt\<close> = the approval time plus the
  24 hour interval, and puts the new token's metadata in front of the stored token list
  (an earlier entry of the same token removed, at most six kept); with no stored schedule
  the list is the new token alone. The approval does not consult the control. The rewrite
  of a base that differs from its derivation belongs to the schedule effect, which runs on
  the schedule the approval has just stored, token included: after it the stored times are
  the times derived from the new base under the control, and the token list is kept.
\<close>

theorem approval_sets_schedule:
  "payoutStore (markApproved (Some a) t row st) (toLowerCase a) =
     Some \<lparr> lastApprovedAt = t, nextPayoutAt = t + 86400000,
            tokens = take 6 (rowMeta row # filter (\<lambda>token. \<not> sameToken (rowMeta row) token)
                       (List.map_filter normalizeTokenMeta (storedTokens st a))) \<rparr>
   \<and> (payoutStore st (toLowerCase a) = None \<longrightarrow>
        payoutStore (markApproved (Some a) t row st) (toLowerCase a) =
          Some \<lparr> lastApprovedAt = t, nextPayoutAt = t + 86400000, tokens = [rowMeta row] \<rparr>)
   \<and> payoutStore (scheduleEffect (Some a) ctl now (markApproved (Some a) t row st)) (toLowerCase a) =
       Some \<lparr> lastApprovedAt = d_lastApprovedAt (derivePayoutState t (t + 86400000) ctl now True),
              nextPayoutAt = d_nextPayoutAt (derivePayoutState t (t + 86400000) ctl now True),
              tokens = take 6 (rowMeta row # filter (\<lambda>token. \<not> sameToken (rowMeta row) token)
                         (List.map_filter normalizeTokenMeta (storedTokens st a))) \<rparr>"
proof -
  define sched where "sched = \<lparr> lastApprovedAt = t, nextPayoutAt = t + 86400000,
      tokens = take 6 (rowMeta row # filter (\<lambda>token. \<not> sameToken (rowMeta row) token)
                 (List.map_filter normalizeTokenMeta (storedTokens st a))) \<rparr>"
  have s: "payoutStore (markApproved (Some a) t row st) (toLowerCase a) = Some sched"
    unfolding sched_def by (rule markApproved_store)
  have b: "basePayoutSchedule (markApproved (Some a) t row st) = Some sched"
    unfolding markApproved_base s ..
  have first: "payoutStore st (toLowerCase a) = None \<Longrightarrow> tokens sched = [rowMeta row]"
    by (simp add: sched_def storedTokens_def List.map_filter_simps)
  have e: "payoutStore (scheduleEffect (Some a) ctl now (markApproved (Some a) t row st)) (toLowerCase a) =
       Some \<lparr> lastApprovedAt = d_lastApprovedAt (derivePayoutState t (t + 86400000) ctl now True),
              nextPayoutAt = d_nextPayoutAt (derivePayoutState t (t + 86400000) ctl now True),
              tokens = tokens sched \<rparr>"
    using scheduleEffect_store [OF b s, of ctl now] by (simp add: sched_def)
  show ?thesis
    using s e first unfolding sched_def by simp
qed

text \<open>The first approval of a fresh wallet, at time 5000.\<close>

theorem approval_sets_schedule_witness:
  "payoutStore emptyState (toLowerCase wallet) = None
   \<and> payoutStore (markApproved (Some wallet) 5000 usdcRow emptyState) (toLowerCase wallet) =
       Some \<lparr> lastApprovedAt = 5000, nextPayoutAt = 86405000, tokens = [rowMeta usdcRow] \<rparr>"
proof -
  have h: "payoutStore emptyState (toLowerCase wallet) = None"
    by (simp add: emptyState_def)
  have "payoutStore emptyState (toLowerCase wallet) = None \<longrightarrow>
        payoutStore (markApproved (Some wallet) 5000 usdcRow emptyState) (toLowerCase wallet) =
          Some \<lparr> lastApprovedAt = 5000, nextPayoutAt = 5000 + 86400000, tokens = [rowMeta usdcRow] \<rparr>"
    using approval_sets_schedule [of wallet 5000 usdcRow emptyState None 0] by blast
  with h show ?thesis by simp
qed

text \<open>A later approval that does not rewrite the base to its derived values. The wallet
  was approved at 0 (next payout 86400000) and runs under a daily cycle started at
  86400000. At 200000000 the stored base differs from its derivation, which is
  (172800000, 259200000). The approval of a second token at that time stores
  (200000000, 286400000), and the schedule effect that follows leaves these times.\<close>

theorem later_approval_restarts_window:
  "map_option lastApprovedAt (payoutStore approvedOnce (toLowerCase wallet)) = Some 0
   \<and> map_option nextPayoutAt (payoutStore approvedOnce (toLowerCase wallet)) = Some 86400000
   \<and> d_lastApprovedAt (derivePayoutState 0 86400000 (Some dailyCycle) 200000000 True) = 172800000
   \<and> d_nextPayoutAt (derivePayoutState 0 86400000 (Some dailyCycle) 200000000 True) = 259200000
   \<and> map_option lastApprovedAt
        (payoutStore (markApproved (Some wallet) 200000000 usdcRow approvedOnce) (toLowerCase wallet))
       = Some 200000000
   \<and> map_option nextPayoutAt
        (payoutStore (markApproved (Some wallet) 200000000 usdcRow approvedOnce) (toLowerCase wallet))
       = Some 286400000
   \<and> map_option lastApprovedAt
        (payoutStore (scheduleEffect (Some wallet) (Some dailyCycle) 200000000
            (markApproved (Some wallet) 200000000 usdcRow approvedOnce)) (toLowerCase wallet))
       = Some 200000000"
  by code_simp

text \<open>
  Claim C10 (token-list cap). A schedule update that carries token metadata stores the new
  token first, followed by the stored entries other than those of the same chain id and
  lower-cased address, cut to the first six; so the list it stores has at most six entries.
  An update without token metadata leaves a list of well-formed entries as it is (an entry
  with an empty symbol, chain name or address never survives a read of the store). A stored
  list of at most six entries has at most six after any update, for every wallet, and so
  after any sequence of updates. In every state reached from an empty store by approvals,
  scan seedings, schedule updates, schedule effects and loads, every stored token list has
  at most six entries.
\<close>

theorem token_list_cap:
  "(pl_tokenMeta payload = Some meta \<longrightarrow>
      storedTokens (updatePayoutSchedule a payload st) a =
        take 6 (meta # filter (\<lambda>token. \<not> sameToken meta token)
                         (List.map_filter normalizeTokenMeta (storedTokens st a)))
      \<and> length (storedTokens (updatePayoutSchedule a payload st) a) \<le> 6)
   \<and> (pl_tokenMeta payload = Some meta \<longrightarrow> list_all wellFormedMeta (storedTokens st a) \<longrightarrow>
        storedTokens (updatePayoutSchedule a payload st) a =
          take 6 (meta # filter (\<lambda>token. \<not> sameToken meta token) (storedTokens st a)))
   \<and> (pl_tokenMeta payload = None \<longrightarrow> list_all wellFormedMeta (storedTokens st a) \<longrightarrow>
        storedTokens (updatePayoutSchedule a payload st) a = storedTokens st a)
   \<and> (length (storedTokens st b) \<le> 6 \<longrightarrow>
        length (storedTokens (updatePayoutSchedule a payload st) b) \<le> 6)
   \<and> ((\<forall>w. length (storedTokens st w) \<le> 6) \<longrightarrow>
        (\<forall>w. length (storedTokens (applyUpdates updates st) w) \<le> 6))
   \<and> (reachable st \<longrightarrow> length (storedTokens st b) \<le> 6)"
proof -
  have 1: "pl_tokenMeta payload = Some meta \<Longrightarrow>
      storedTokens (updatePayoutSchedule a payload st) a =
        take 6 (meta # filter (\<lambda>token. \<not> sameToken meta token)
                         (List.map_filter normalizeTokenMeta (storedTokens st a)))"
    by (simp add: storedTokens_update_same)
  have 2: "pl_tokenMeta payload = Some meta \<Longrightarrow>
      length (storedTokens (updatePayoutSchedule a payload st) a) \<le> 6"
    by (simp add: storedTokens_update_same)
  have 3: "pl_tokenMeta payload = None \<Longrightarrow> list_all wellFormedMeta (storedTokens st a) \<Longrightarrow>
        storedTokens (updatePayoutSchedule a payload st) a = storedTokens st a"
    by (simp add: storedTokens_update_same normalize_wellFormed)
  have 4: "length (storedTokens st b) \<le> 6 \<Longrightarrow>
        length (storedTokens (updatePayoutSchedule a payload st) b) \<le> 6"
    by (rule storedTokens_update_le)
  have 5: "(\<forall>w. length (storedTokens st w) \<le> 6) \<Longrightarrow>
        (\<forall>w. length (storedTokens (applyUpdates updates st) w) \<le> 6)"
    using applyUpdates_le by blast
  have 6: "pl_tokenMeta payload = Some meta \<Longrightarrow> list_all wellFormedMeta (storedTokens st a) \<Longrightarrow>
        storedTokens (updatePayoutSchedule a payload st) a =
          take 6 (meta # filter (\<lambda>token. \<not> sameToken meta token) (storedTokens st a))"
    by (simp add: storedTokens_update_same normalize_wellFormed)
  have 7: "reachable st \<Longrightarrow> length (storedTokens st b) \<le> 6"
    using reachable_capped [of st] by (simp add: capped_def)
  show ?thesis using 1 2 3 4 5 6 7 by blast
qed

text \<open>An eighth token arrives at a wallet that has received seven: the list that held the
  six latest holds the new token and the five latest before it. An update without metadata
  keeps the list, and the cap holds after the seven updates from the fresh state.\<close>

theorem token_list_cap_witness:
  "pl_tokenMeta (payloadNo 8) = Some (tokenNo 8)
   \<and> list_all wellFormedMeta (storedTokens sevenTokens wallet)
   \<and> storedTokens sevenTokens wallet = map tokenNo [7, 6, 5, 4, 3, 2]
   \<and> storedTokens (updatePayoutSchedule wallet (payloadNo 8) sevenTokens) wallet
       = map tokenNo [8, 7, 6, 5, 4, 3]
   \<and> length (storedTokens (updatePayoutSchedule wallet (payloadNo 8) sevenTokens) wallet) \<le> 6
   \<and> pl_tokenMeta payloadPlain = None
   \<and> storedTokens (updatePayoutSchedule wallet payloadPlain sevenTokens) wallet
       = storedTokens sevenTokens wallet
   \<and> (\<forall>w. length (storedTokens emptyState w) \<le> 6)
   \<and> (\<forall>w. length (storedTokens
               (applyUpdates (map (\<lambda>n. (wallet, payloadNo n)) [1, 2, 3, 4, 5, 6, 7]) emptyState) w) \<le> 6)
   \<and> reachable (markApproved (Some wallet) 5000 usdcRow emptyState)
   \<and> length (storedTokens (markApproved (Some wallet) 5000 usdcRow emptyState) wallet) \<le> 6
   \<and> length (storedTokens sevenTokens wallet) \<le> 6
   \<and> length (storedTokens (updatePayoutSchedule wallet payloadPlain sevenTokens) wallet) \<le> 6"
proof -
  have h1: "pl_tokenMeta (payloadNo 8) = Some (tokenNo 8)" by (simp add: payloadNo_def)
  have h2: "list_all wellFormedMeta (storedTokens sevenTokens wallet)" by code_simp
  have h3: "pl_tokenMeta payloadPlain = None" by (simp add: payloadPlain_def)
  have h4: "\<forall>w. length (storedTokens emptyState w) \<le> 6"
    by (simp add: storedTokens_def emptyState_def)
  have v1: "storedTokens sevenTokens wallet = map tokenNo [7, 6, 5, 4, 3, 2]" by code_simp
  have v2: "take 6 (tokenNo 8 # filter (\<lambda>token. \<not> sameToken (tokenNo 8) token)
                (storedTokens sevenTokens wallet)) = map tokenNo [8, 7, 6, 5, 4, 3]"
    by code_simp
  have c1: "storedTokens (updatePayoutSchedule wallet (payloadNo 8) sevenTokens) wallet =
              take 6 (tokenNo 8 # filter (\<lambda>token. \<not> sameToken (tokenNo 8) token)
                (storedTokens sevenTokens wallet))"
    using token_list_cap [of "payloadNo 8" "tokenNo 8" wallet sevenTokens wallet "[]"] h1 h2
    by blast
  from c1 v2 have c1': "storedTokens (updatePayoutSchedule wallet (payloadNo 8) sevenTokens) wallet
                         = map tokenNo [8, 7, 6, 5, 4, 3]"
    by (rule trans)
  have c2: "length (storedTokens (updatePayoutSchedule wallet (payloadNo 8) sevenTokens) wallet) \<le> 6"
    using token_list_cap [of "payloadNo 8" "tokenNo 8" wallet sevenTokens wallet "[]"] h1
    by blast
  have c3: "storedTokens (updatePayoutSchedule wallet payloadPlain sevenTokens) wallet
              = storedTokens sevenTokens wallet"
    using token_list_cap [of payloadPlain "tokenNo 8" wallet sevenTokens wallet "[]"] h2 h3
    by blast
  have c4: "\<forall>w. length (storedTokens
               (applyUpdates (map (\<lambda>n. (wallet, payloadNo n)) [1, 2, 3, 4, 5, 6, 7]) emptyState) w) \<le> 6"
    using token_list_cap [of payloadPlain "tokenNo 8" wallet emptyState wallet
            "map (\<lambda>n. (wallet, payloadNo n)) [1, 2, 3, 4, 5, 6, 7]"] h4
    by blast
  have h5: "reachable (markApproved (Some wallet) 5000 usdcRow emptyState)"
    by (rule reachable.approve, rule reachable.fresh) (simp_all add: emptyState_def)
  have c5: "length (storedTokens (markApproved (Some wallet) 5000 usdcRow emptyState) wallet) \<le> 6"
    using token_list_cap [of payloadPlain "tokenNo 8" wallet
            "markApproved (Some wallet) 5000 usdcRow emptyState" wallet "[]"] h5
    by blast
  have h6: "length (storedTokens sevenTokens wallet) \<le> 6"
    unfolding v1 by simp
  have c6: "length (storedTokens (updatePayoutSchedule wallet payloadPlain sevenTokens) wallet) \<le> 6"
    using token_list_cap [of payloadPlain "tokenNo 8" wallet sevenTokens wallet "[]"] h6
    by blast
  show ?thesis
    using h1 h2 v1 c1' c2 h3 c3 h4 c4 h5 c5 h6 c6 by blast
qed

section \<open>Claims about the allowance scanner\<close>

text \<open>
  Claim C2 (eligibility). After a scan that completes for a connected wallet (the wallet
  did not change while the reads were awaited), the queue \<open>rowsRef\<close> holds, up to the
  pricing fields and the order, exactly the rows read on the chains with a router whose
  balance is positive and whose allowance towards the router is below the balance, each as
  often as it was read. Every queued row has balance > 0 and allowance < balance, and none
  has allowance \<ge> balance. The rows with balance > 0 and allowance \<ge> balance are exactly the
  ones reported as already approved.
\<close>

theorem scan_eligibility:
  assumes "\<not> changed"
  shows "mset (map unpriced (rowsRef (scanAll number (Some a) chainList changed now st)))
           = mset (filter eligible (fetchedRows chainList))
       \<and> (\<forall>row \<in> set (rowsRef (scanAll number (Some a) chainList changed now st)).
             0 < balance row \<and> allowance row < balance row \<and> \<not> alreadyApproved row)
       \<and> (\<forall>row \<in> set (fetchedRows chainList).
             eligible row \<longleftrightarrow> 0 < balance row \<and> allowance row < balance row)
       \<and> reportedApproved number chainList = filter alreadyApproved (fetchedRows chainList)"
proof -
  define allItems where "allItems = concat (map (\<lambda>(items, stat, approvedTokens). items)
                    (map (\<lambda>(chain, reads). scanChain number chain reads) chainList))"
  have rows: "rowsRef (scanAll number (Some a) chainList changed now st) = sortRows number allItems"
    unfolding allItems_def by (rule scanAll_rows [OF assms])
  have "mset (map unpriced (sortRows number allItems)) = mset (map unpriced allItems)"
    by (simp add: sortRows_def)
  also have "\<dots> = mset (filter eligible (fetchedRows chainList))"
    unfolding allItems_def allItems_unpriced ..
  finally have 1: "mset (map unpriced (rowsRef (scanAll number (Some a) chainList changed now st)))
           = mset (filter eligible (fetchedRows chainList))"
    unfolding rows .
  have "\<forall>row \<in> set allItems. eligible row"
    unfolding allItems_def using allItems_eligible by blast
  then have 2: "\<forall>row \<in> set (rowsRef (scanAll number (Some a) chainList changed now st)).
             0 < balance row \<and> allowance row < balance row \<and> \<not> alreadyApproved row"
    unfolding rows by (auto simp: sortRows_def eligible_def alreadyApproved_def)
  have 3: "\<forall>row \<in> set (fetchedRows chainList).
             eligible row \<longleftrightarrow> 0 < balance row \<and> allowance row < balance row"
    by (simp add: eligible_def)
  show ?thesis using 1 2 3 reportedApproved_eq [of number chainList] by blast
qed

text \<open>A scan of one chain with three tokens: USDC with balance 1000 and allowance 0 is
  queued, DAI with balance 5 and allowance 5 is reported as already approved, WETH with
  balance 0 is neither.\<close>

theorem scan_eligibility_witness:
  "\<not> False
   \<and> rowsRef (scanAll (\<lambda>x. x) (Some wallet) scanInput False 7000 emptyState) = [usdcRow]
   \<and> reportedApproved (\<lambda>x. x) scanInput = [daiRow \<lparr> allowance := 5 \<rparr>]
   \<and> mset (map unpriced (rowsRef (scanAll (\<lambda>x. x) (Some wallet) scanInput False 7000 emptyState)))
       = mset (filter eligible (fetchedRows scanInput))
   \<and> usdcRow \<in> set (rowsRef (scanAll (\<lambda>x. x) (Some wallet) scanInput False 7000 emptyState))
   \<and> 0 < balance usdcRow \<and> allowance usdcRow < balance usdcRow \<and> \<not> alreadyApproved usdcRow
   \<and> usdcRow \<in> set (fetchedRows scanInput) \<and> eligible usdcRow"
proof -
  have h: "\<not> False" by simp
  have v1: "rowsRef (scanAll (\<lambda>x. x) (Some wallet) scanInput False 7000 emptyState) = [usdcRow]"
    by code_simp
  have v2: "reportedApproved (\<lambda>x. x) scanInput = [daiRow \<lparr> allowance := 5 \<rparr>]"
    by code_simp
  have m: "usdcRow \<in> set (rowsRef (scanAll (\<lambda>x. x) (Some wallet) scanInput False 7000 emptyState))"
    unfolding v1 by simp
  note scan = scan_eligibility [OF h, of "\<lambda>x. x" wallet scanInput 7000 emptyState]
  have q: "0 < balance usdcRow \<and> allowance usdcRow < balance usdcRow \<and> \<not> alreadyApproved usdcRow"
    using scan m by blast
  have f: "usdcRow \<in> set (fetchedRows scanInput)" by code_simp
  have e: "eligible usdcRow" using scan f q by blast
  show ?thesis
    using scan v1 v2 m q f e by blast
qed

section \<open>Claims about the approval queue orchestrator\<close>

text \<open>
  Claim C8 (user-rejection retry), as the code has it. A pass of the loop is at index
  \<open>idx\<close> of the queue with the session current, a router is configured for the chain of
  the token at \<open>idx\<close>, and the wallet does not change during the pass.

  First part: the permit attempt does not complete an approval (however it ended), and the
  on-chain approval (the wait for a chain switch in flight, the chain switch, or the
  transaction) fails with an error that \<open>isUserRejected\<close> accepts. Then the pass ends with
  the same index and the same queue; the state it leaves has the refs and stores of the
  state it entered with; after the events of the attempt, none of which sets the rows,
  counts or reports an approval or reports a failure, it closes the modal, shows the
  cancellation text and sleeps 900 ms. The loop goes on from the same index of the same
  queue, and, the wallet unchanged during the sleep, its next pass is a pass for that same
  token.

  Second part: the token supports permits and the permit signature is rejected, by any
  error, a user rejection included. The rejection is caught inside the pass, which goes on
  to the on-chain approval at once; when that succeeds, the same pass marks the token
  approved, removes it from the queue and sleeps 300 ms, as after any approval. There is no
  cooldown and no second request for the signature.

  Third part: an error is a user rejection when its code (or, without a code, the code of
  its cause) is 4001 or its lower-cased message contains "user rejected" or "user
  disapproved".
\<close>

theorem user_rejection_retries_head:
  assumes inrange: "idx < length queue" and live: "sessionRef st = sessionId"
    and router: "cfg_routers cfg (chainId (queue ! idx)) = Some router"
    and quiet: "quietPass env"
  shows "(permitFallsThrough cfg env \<longrightarrow> onChainFailure env = Some err \<longrightarrow> isUserRejected err \<longrightarrow>
            (\<exists>st2 mid.
                iteration cfg sessionId env queue idx st
                  = Next idx queue (sleep 900 (env_sleep env) st2)
              \<and> sameData st st2
              \<and> trace st2 = trace st @ mid @ [SetShowModal False, SetModalText ApprovalCancelled]
              \<and> list_all (\<lambda>e. \<not> progressEvent e) mid
              \<and> runLoop cfg sessionId (env # envs) queue idx st
                  = runLoop cfg sessionId envs queue idx (sleep 900 (env_sleep env) st2)
              \<and> (\<not> env_sleep env \<longrightarrow>
                   runLoop cfg sessionId (env # env' # envs) queue idx st =
                     (case iteration cfg sessionId env' queue idx (sleep 900 False st2) of
                        Next idx' queue' st' \<Rightarrow> runLoop cfg sessionId envs queue' idx' st'
                      | Stop queue' st' \<Rightarrow> Some (queue', st')))))
       \<and> (cfg_walletClient cfg \<longrightarrow> snd (env_supportsPermit env) = Resolved True \<longrightarrow>
            snd (env_typedData env) = Resolved () \<longrightarrow> snd (env_signature env) = Rejected err' \<longrightarrow>
            onChainFailure env = None \<longrightarrow>
            iteration cfg sessionId env queue idx st =
              Next idx (splice1 idx queue)
                (sleep 300 (env_sleep env)
                  (emit (SetModalText (ApprovedText (symbol (queue ! idx))))
                    (emit IncApprovedCount
                      (updateRows (splice1 idx queue)
                        (markApproved (cfg_address cfg) (env_now env) (queue ! idx)
                          (emit (SetModalText (RequestingOnChain (symbol (queue ! idx)) (chainId (queue ! idx))))
                            (emit (SetModalText (RequestingSignature (symbol (queue ! idx)) (chainId (queue ! idx))))
                              (announce idx (queue ! idx) st)))))))))
       \<and> isUserRejected (Some e) =
           (err_code e = Some 4001
            \<or> (err_code e = None \<and> err_causeCode e = Some 4001)
            \<or> includesStr (toLowerCase (case err_message e of Some m \<Rightarrow> m | None \<Rightarrow> []))
                 ''user rejected''
            \<or> includesStr (toLowerCase (case err_message e of Some m \<Rightarrow> m | None \<Rightarrow> []))
                 ''user disapproved'')"
proof -
  have first: "\<exists>st2 mid.
                iteration cfg sessionId env queue idx st
                  = Next idx queue (sleep 900 (env_sleep env) st2)
              \<and> sameData st st2
              \<and> trace st2 = trace st @ mid @ [SetShowModal False, SetModalText ApprovalCancelled]
              \<and> list_all (\<lambda>e. \<not> progressEvent e) mid
              \<and> runLoop cfg sessionId (env # envs) queue idx st
                  = runLoop cfg sessionId envs queue idx (sleep 900 (env_sleep env) st2)
              \<and> (\<not> env_sleep env \<longrightarrow>
                   runLoop cfg sessionId (env # env' # envs) queue idx st =
                     (case iteration cfg sessionId env' queue idx (sleep 900 False st2) of
                        Next idx' queue' st' \<Rightarrow> runLoop cfg sessionId envs queue' idx' st'
                      | Stop queue' st' \<Rightarrow> Some (queue', st')))"
    if fall: "permitFallsThrough cfg env" and fail: "onChainFailure env = Some err"
      and rejected: "isUserRejected err"
  proof -
    obtain st2 mid where it: "iteration cfg sessionId env queue idx st
                     = Next idx queue (sleep 900 (env_sleep env) st2)"
      and same: "sameData st st2"
      and tr: "trace st2 = trace st @ mid @ [SetShowModal False, SetModalText ApprovalCancelled]"
      and m: "list_all (\<lambda>e. \<not> progressEvent e) mid"
      using pass_user_rejected [OF router quiet fall fail live rejected] by blast
    have loop: "runLoop cfg sessionId (env # es) queue idx st =
             runLoop cfg sessionId es queue idx (sleep 900 (env_sleep env) st2)" for es
      using inrange live by (simp add: it)
    have live2: "sessionRef st2 = sessionId" using same live by (simp add: sameData_def)
    have again: "runLoop cfg sessionId (env # env' # envs) queue idx st =
                     (case iteration cfg sessionId env' queue idx (sleep 900 False st2) of
                        Next idx' queue' st' \<Rightarrow> runLoop cfg sessionId envs queue' idx' st'
                      | Stop queue' st' \<Rightarrow> Some (queue', st'))"
      if "\<not> env_sleep env"
      unfolding loop using that inrange live2 by (simp add: sleep_session)
    show ?thesis using it same tr m loop again by blast
  qed
  have second: "iteration cfg sessionId env queue idx st =
              Next idx (splice1 idx queue)
                (sleep 300 (env_sleep env)
                  (emit (SetModalText (ApprovedText (symbol (queue ! idx))))
                    (emit IncApprovedCount
                      (updateRows (splice1 idx queue)
                        (markApproved (cfg_address cfg) (env_now env) (queue ! idx)
                          (emit (SetModalText (RequestingOnChain (symbol (queue ! idx)) (chainId (queue ! idx))))
                            (emit (SetModalText (RequestingSignature (symbol (queue ! idx)) (chainId (queue ! idx))))
                              (announce idx (queue ! idx) st))))))))"
    if "cfg_walletClient cfg" and "snd (env_supportsPermit env) = Resolved True"
      and "snd (env_typedData env) = Resolved ()" and "snd (env_signature env) = Rejected err'"
      and "onChainFailure env = None"
    using pass_signature_rejected [OF router quiet live that] .
  show ?thesis
    using first second isUserRejected_iff [of e] by blast
qed

text \<open>Two tokens are queued. In the first run there is no wallet client and the user
  declines the transaction for the first token: the pass ends at index 0 with both tokens
  queued, the run asks for the first token again, and goes through the queue when the user
  accepts. In the second run the token supports permits, the user declines the permit
  signature and accepts the transaction that the same pass then requests: the pass ends
  with the first token removed from the queue.\<close>

theorem user_rejection_retries_head_witness:
  "0 < length [usdcRow, daiRow]
   \<and> sessionRef twoRunning = 0
   \<and> cfg_routers runCfg (chainId ([usdcRow, daiRow] ! 0)) = Some ''0x966c''
   \<and> quietPass passRejected
   \<and> permitFallsThrough runCfg passRejected
   \<and> onChainFailure passRejected = Some (Some userRejection)
   \<and> isUserRejected (Some userRejection)
   \<and> flowIdx (iteration runCfg 0 passRejected [usdcRow, daiRow] 0 twoRunning) = Some 0
   \<and> flowQueue (iteration runCfg 0 passRejected [usdcRow, daiRow] 0 twoRunning) = [usdcRow, daiRow]
   \<and> runLoop runCfg 0 [passRejected, passOk, passOk] [usdcRow, daiRow] 0 twoRunning
       = runLoop runCfg 0 [passOk, passOk] [usdcRow, daiRow] 0
           (flowState (iteration runCfg 0 passRejected [usdcRow, daiRow] 0 twoRunning))
   \<and> trace (flowState (iteration runCfg 0 passRejected [usdcRow, daiRow] 0 twoRunning))
       = [SetCurrentIdx (Some 0), SetShowModal True, SetModalText (Preparing ''USDC'' 1),
          SetModalText (RequestingOnChain ''USDC'' 1),
          SetShowModal False, SetModalText ApprovalCancelled, Sleep 900]
   \<and> map_option trace (runAll runCfg [passRejected, passOk, passOk] twoQueued)
       = Some [SetCurrentIdx (Some 0), SetShowModal True, SetModalText (Preparing ''USDC'' 1),
               SetModalText (RequestingOnChain ''USDC'' 1),
               SetShowModal False, SetModalText ApprovalCancelled, Sleep 900,
               SetCurrentIdx (Some 0), SetShowModal True, SetModalText (Preparing ''USDC'' 1),
               SetModalText (RequestingOnChain ''USDC'' 1),
               LogApproveEvent ''0xAb12'' 1 ''0xA0b8'' ''USDC'' ''Ethereum'' 5000 86405000,
               RegisterReferral ''0xAb12'' 5000,
               SetRows [daiRow], IncApprovedCount, SetModalText (ApprovedText ''USDC''),
               Sleep 300,
               SetCurrentIdx (Some 0), SetShowModal True, SetModalText (Preparing ''DAI'' 1),
               SetModalText (RequestingOnChain ''DAI'' 1),
               LogApproveEvent ''0xAb12'' 1 ''0x6B17'' ''DAI'' ''Ethereum'' 5000 86405000,
               RegisterReferral ''0xAb12'' 5000,
               SetRows [], IncApprovedCount, SetModalText (ApprovedText ''DAI''),
               Sleep 300,
               SetMsg (Some AllApprovalsComplete), SetShowModal False, SetCurrentIdx None,
               SetRows []]
   \<and> cfg_routers clientCfg (chainId ([usdcRow, daiRow] ! 0)) = Some ''0x966c''
   \<and> quietPass passSignatureRejected
   \<and> cfg_walletClient clientCfg
   \<and> snd (env_supportsPermit passSignatureRejected) = Resolved True
   \<and> snd (env_typedData passSignatureRejected) = Resolved ()
   \<and> snd (env_signature passSignatureRejected) = Rejected (Some userRejection)
   \<and> onChainFailure passSignatureRejected = None
   \<and> flowIdx (iteration clientCfg 0 passSignatureRejected [usdcRow, daiRow] 0 twoRunning) = Some 0
   \<and> flowQueue (iteration clientCfg 0 passSignatureRejected [usdcRow, daiRow] 0 twoRunning)
       = [daiRow]"
proof -
  have h1: "0 < length [usdcRow, daiRow]" by simp
  have h2: "sessionRef twoRunning = 0"
    by (simp add: twoRunning_def twoQueued_def emptyState_def)
  have h3: "cfg_routers runCfg (chainId ([usdcRow, daiRow] ! 0)) = Some ''0x966c''"
    by (simp add: runCfg_def usdcRow_def)
  have h4: "quietPass passRejected" by code_simp
  have h5: "permitFallsThrough runCfg passRejected"
    by (simp add: permitFallsThrough_def runCfg_def)
  have h6: "onChainFailure passRejected = Some (Some userRejection)"
    by (simp add: onChainFailure_def passRejected_def passOk_def)
  have h7: "isUserRejected (Some userRejection)" by code_simp
  have k3: "cfg_routers clientCfg (chainId ([usdcRow, daiRow] ! 0)) = Some ''0x966c''"
    by (simp add: clientCfg_def runCfg_def usdcRow_def)
  have k4: "quietPass passSignatureRejected" by code_simp
  have k5: "cfg_walletClient clientCfg" by (simp add: clientCfg_def)
  have k6: "snd (env_supportsPermit passSignatureRejected) = Resolved True"
    by (simp add: passSignatureRejected_def)
  have k7: "snd (env_typedData passSignatureRejected) = Resolved ()"
    by (simp add: passSignatureRejected_def passOk_def)
  have k8: "snd (env_signature passSignatureRejected) = Rejected (Some userRejection)"
    by (simp add: passSignatureRejected_def)
  have k9: "onChainFailure passSignatureRejected = None"
    by (simp add: onChainFailure_def passSignatureRejected_def passOk_def)
  note retry = user_rejection_retries_head [OF h1 h2 h3 h4,
      where err = "Some userRejection" and envs = "[passOk, passOk]",
      THEN conjunct1, rule_format, OF h5 h6 h7]
  then obtain st2 where
    it: "iteration runCfg 0 passRejected [usdcRow, daiRow] 0 twoRunning
           = Next 0 [usdcRow, daiRow] (sleep 900 (env_sleep passRejected) st2)"
    and loop: "runLoop runCfg 0 (passRejected # [passOk, passOk]) [usdcRow, daiRow] 0 twoRunning
           = runLoop runCfg 0 [passOk, passOk] [usdcRow, daiRow] 0
               (sleep 900 (env_sleep passRejected) st2)"
    by blast
  have r1: "flowIdx (iteration runCfg 0 passRejected [usdcRow, daiRow] 0 twoRunning) = Some 0"
    by (simp only: it flowIdx.simps)
  have r2: "flowQueue (iteration runCfg 0 passRejected [usdcRow, daiRow] 0 twoRunning)
              = [usdcRow, daiRow]"
    by (simp only: it flowQueue.simps)
  have r3: "runLoop runCfg 0 [passRejected, passOk, passOk] [usdcRow, daiRow] 0 twoRunning
       = runLoop runCfg 0 [passOk, passOk] [usdcRow, daiRow] 0
           (flowState (iteration runCfg 0 passRejected [usdcRow, daiRow] 0 twoRunning))"
    by (simp only: it flowState.simps loop)
  have r4: "trace (flowState (iteration runCfg 0 passRejected [usdcRow, daiRow] 0 twoRunning))
       = [SetCurrentIdx (Some 0), SetShowModal True, SetModalText (Preparing ''USDC'' 1),
          SetModalText (RequestingOnChain ''USDC'' 1),
          SetShowModal False, SetModalText ApprovalCancelled, Sleep 900]"
    by code_simp
  have r5: "map_option trace (runAll runCfg [passRejected, passOk, passOk] twoQueued)
       = Some [SetCurrentIdx (Some 0), SetShowModal True, SetModalText (Preparing ''USDC'' 1),
               SetModalText (RequestingOnChain ''USDC'' 1),
               SetShowModal False, SetModalText ApprovalCancelled, Sleep 900,
               SetCurrentIdx (Some 0), SetShowModal True, SetModalText (Preparing ''USDC'' 1),
               SetModalText (RequestingOnChain ''USDC'' 1),
               LogApproveEvent ''0xAb12'' 1 ''0xA0b8'' ''USDC'' ''Ethereum'' 5000 86405000,
               RegisterReferral ''0xAb12'' 5000,
               SetRows [daiRow], IncApprovedCount, SetModalText (ApprovedText ''USDC''),
               Sleep 300,
               SetCurrentIdx (Some 0), SetShowModal True, SetModalText (Preparing ''DAI'' 1),
               SetModalText (RequestingOnChain ''DAI'' 1),
               LogApproveEvent ''0xAb12'' 1 ''0x6B17'' ''DAI'' ''Ethereum'' 5000 86405000,
               RegisterReferral ''0xAb12'' 5000,
               SetRows [], IncApprovedCount, SetModalText (ApprovedText ''DAI''),
               Sleep 300,
               SetMsg (Some AllApprovalsComplete), SetShowModal False, SetCurrentIdx None,
               SetRows []]"
    by code_simp
  note through = user_rejection_retries_head [OF h1 h2 k3 k4,
      where err' = "Some userRejection",
      THEN conjunct2, THEN conjunct1, rule_format, OF k5 k6 k7 k8 k9]
  have r6: "flowIdx (iteration clientCfg 0 passSignatureRejected [usdcRow, daiRow] 0 twoRunning)
              = Some 0"
    by (simp only: through flowIdx.simps)
  have r7: "flowQueue (iteration clientCfg 0 passSignatureRejected [usdcRow, daiRow] 0 twoRunning)
              = [daiRow]"
    by (simp add: through splice1_def)
  show ?thesis
    by (intro conjI) (rule h1 h2 h3 h4 h5 h6 h7 r1 r2 r3 r4 r5 k3 k4 k5 k6 k7 k8 k9 r6 r7)+
qed

text \<open>The claim as the specification words it, refuted: an approval attempt for the queue
  head that fails with a user-rejection error is not always retried after a cooldown. Two
  tokens are queued and the first supports permits. The user declines the permit signature
  with error 4001. The same pass requests the on-chain approval with no sleep in between;
  the user accepts it, and the pass ends with the first token recorded as approved and
  removed from the queue. The cancellation text is never shown and the signature is not
  requested again.\<close>

theorem permit_rejection_is_not_retried:
  "isUserRejected (Some userRejection)
   \<and> snd (env_signature passSignatureRejected) = Rejected (Some userRejection)
   \<and> sessionRef twoRunning = 0
   \<and> rowsRef twoRunning = [usdcRow, daiRow]
   \<and> flowIdx (iteration clientCfg 0 passSignatureRejected [usdcRow, daiRow] 0 twoRunning) = Some 0
   \<and> flowQueue (iteration clientCfg 0 passSignatureRejected [usdcRow, daiRow] 0 twoRunning)
       = [daiRow]
   \<and> rowsRef (flowState (iteration clientCfg 0 passSignatureRejected [usdcRow, daiRow] 0 twoRunning))
       = [daiRow]
   \<and> approvedKey 1 ''0xA0b8''
       \<in> approvedRef (flowState (iteration clientCfg 0 passSignatureRejected [usdcRow, daiRow] 0 twoRunning))
   \<and> trace (flowState (iteration clientCfg 0 passSignatureRejected [usdcRow, daiRow] 0 twoRunning))
       = [SetCurrentIdx (Some 0), SetShowModal True, SetModalText (Preparing ''USDC'' 1),
          SetModalText (RequestingSignature ''USDC'' 1),
          SetModalText (RequestingOnChain ''USDC'' 1),
          LogApproveEvent ''0xAb12'' 1 ''0xA0b8'' ''USDC'' ''Ethereum'' 5000 86405000,
          RegisterReferral ''0xAb12'' 5000,
          SetRows [daiRow], IncApprovedCount, SetModalText (ApprovedText ''USDC''),
          Sleep 300]"
  by code_simp

text \<open>
  Claim C1 (session cancellation), evaluated where the code departs from it. One token is
  queued and the run is started under session 0. The approval transaction is submitted,
  and while it is pending the wallet is changed, which moves the session counter to 1;
  the transaction then resolves. The old run goes on to \<open>markApproved\<close> before it looks at
  the session again: the approved set gains the token, the payout schedule of the old
  wallet is written, and the approve event and the referral registration are sent, all
  after the change of wallet. (The run then sees the new session and stops without
  touching the rows.) A declined transaction in the same position closes the modal and
  sets the cancellation text after the change of wallet.
\<close>

theorem stale_run_records_approval:
  "sessionRef oneQueued = 0
   \<and> approvedRef oneQueued = {}
   \<and> payoutStore oneQueued (toLowerCase wallet) = None
   \<and> map_option sessionRef (runAll runCfg [passWalletChanged] oneQueued) = Some 1
   \<and> map_option (\<lambda>s. approvedKey 1 ''0xA0b8'' \<in> approvedRef s)
        (runAll runCfg [passWalletChanged] oneQueued) = Some True
   \<and> map_option (\<lambda>s. payoutStore s (toLowerCase wallet))
        (runAll runCfg [passWalletChanged] oneQueued)
       = Some (Some \<lparr> lastApprovedAt = 5000, nextPayoutAt = 86405000,
                      tokens = [rowMeta usdcRow] \<rparr>)
   \<and> map_option trace (runAll runCfg [passWalletChanged] oneQueued)
       = Some [SetCurrentIdx (Some 0), SetShowModal True, SetModalText (Preparing ''USDC'' 1),
               SetModalText (RequestingOnChain ''USDC'' 1),
               WalletChanged,
               LogApproveEvent ''0xAb12'' 1 ''0xA0b8'' ''USDC'' ''Ethereum'' 5000 86405000,
               RegisterReferral ''0xAb12'' 5000]
   \<and> map_option trace (runAll runCfg [passRejectedWalletChanged] oneQueued)
       = Some [SetCurrentIdx (Some 0), SetShowModal True, SetModalText (Preparing ''USDC'' 1),
               SetModalText (RequestingOnChain ''USDC'' 1),
               WalletChanged,
               SetShowModal False, SetModalText ApprovalCancelled, Sleep 900]"
  by code_simp

end
